theory Spec2Isabelle
  imports Complex_Main "HOL-Library.Sublist" "HOL-Library.AList" "HOL-Library.Log_Nat"
begin

section \<open>Python values used by the embedding\<close>

text \<open>
  Exceptions of the source are values: every \<^verbatim>\<open>assert\<close>, every failing list index and
  every failing library call is an \<open>Inl\<close> branch of the function that models it.
\<close>

datatype error = AssertionError | IndexError | FileNotFoundError | RuntimeError | AttributeError
  | TypeError | OverflowError | ValueError

text \<open>
  A slice bound of Python (\<^verbatim>\<open>xs[a:b]\<close>): a negative bound counts from the end, and every
  bound is clipped to the list.
\<close>

definition py_bound :: "int \<Rightarrow> nat \<Rightarrow> nat" where
  "py_bound i n = (if i < 0 then nat (max 0 (i + int n)) else min (nat i) n)"

definition py_slice :: "int \<Rightarrow> int \<Rightarrow> 'a list \<Rightarrow> 'a list" where
  "py_slice a b xs =
     (let n = length xs; lo = py_bound a n; hi = py_bound b n
      in take (hi - lo) (drop lo xs))"

text \<open>\<^verbatim>\<open>xs[:b]\<close> and \<^verbatim>\<open>xs[a:]\<close>.\<close>

definition py_take :: "int \<Rightarrow> 'a list \<Rightarrow> 'a list" where
  "py_take b xs = take (py_bound b (length xs)) xs"

definition py_drop :: "int \<Rightarrow> 'a list \<Rightarrow> 'a list" where
  "py_drop a xs = drop (py_bound a (length xs)) xs"

text \<open>\<^verbatim>\<open>xs[i]\<close>: negative indices count from the end, anything else out of range raises.\<close>

definition py_nth :: "'a list \<Rightarrow> int \<Rightarrow> error + 'a" where
  "py_nth xs i =
     (if 0 \<le> i \<and> i < int (length xs) then Inr (xs ! nat i)
      else if - int (length xs) \<le> i \<and> i < 0 then Inr (xs ! nat (int (length xs) + i))
      else Inl IndexError)"

text \<open>
  Python's \<^verbatim>\<open>round\<close> of a finite float, given by the rational the float is equal to:
  the nearest integer, a tie going to the even one.
\<close>

definition py_round :: "rat \<Rightarrow> int" where
  "py_round x =
     (let f = \<lfloor>x\<rfloor>; d = x - of_int f
      in if d < 1 / 2 then f
         else if d > 1 / 2 then f + 1
         else if even f then f else f + 1)"

section \<open>Floating point\<close>

text \<open>
  A Python float is an IEEE 754 double. \<open>nearest_double x\<close> is the double a rational \<open>x\<close>
  is rounded to (to nearest, a tie going to the even significand \<open>m\<close> of 53 bits, down
  to the subnormal numbers), as a rational again; it is \<open>None\<close> when the result is
  infinite, that is beyond the largest double \<open>(2 ^ 53 - 1) * 2 ^ 971\<close>. This is how
  Python reads a literal, converts an integer, and rounds the exact result of a product
  or a difference of two doubles.
\<close>

definition pow2 :: "int \<Rightarrow> rat" where
  "pow2 k = (if 0 \<le> k then 2 ^ nat k else 1 / 2 ^ nat (- k))"

text \<open>The exponent \<open>k\<close> with \<open>2 ^ k \<le> x < 2 ^ (k + 1)\<close>, for a positive \<open>x\<close>.\<close>

definition floor_log2 :: "rat \<Rightarrow> int" where
  "floor_log2 x =
     (let (p, q) = quotient_of x; k = bitlen p - bitlen q
      in if pow2 k \<le> x then k else k - 1)"

definition nearest_double :: "rat \<Rightarrow> rat option" where
  "nearest_double x =
     (if x = 0 then Some 0
      else (let a = \<bar>x\<bar>;
                e = max (floor_log2 a - 52) (- 1074);
                m = py_round (a / pow2 e)
            in if 971 < e \<or> (e = 971 \<and> 2 ^ 53 \<le> m) then None
               else Some (sgn x * (of_int m * pow2 e))))"

text \<open>\<^verbatim>\<open>float(n)\<close> for an integer, as every mixed operation does first: it raises when
  the integer is too large.\<close>

definition float_of_int :: "int \<Rightarrow> error + rat" where
  "float_of_int n =
     (case nearest_double (of_int n) of None \<Rightarrow> Inl OverflowError | Some a \<Rightarrow> Inr a)"

text \<open>
  \<^verbatim>\<open>round(n * fraction)\<close> for an integer \<open>n\<close> and a float field \<open>fraction\<close>. The field
  is given by the number written in the configuration, and the float it holds is the
  double nearest to it. The product is the double nearest to the exact product of the
  two doubles; \<^verbatim>\<open>round\<close> raises on an infinite product and on \<^verbatim>\<open>0 * inf\<close>.
\<close>

definition round_product :: "int \<Rightarrow> rat \<Rightarrow> error + int" where
  "round_product n fraction =
     (case float_of_int n of
        Inl e \<Rightarrow> Inl e
      | Inr a \<Rightarrow>
         (case nearest_double fraction of
            None \<Rightarrow> if a = 0 then Inl ValueError else Inl OverflowError
          | Some f \<Rightarrow>
             (case nearest_double (a * f) of
                None \<Rightarrow> Inl OverflowError
              | Some p \<Rightarrow> Inr (py_round p))))"

section \<open>Configuration (\<^verbatim>\<open>DataGenerationConfig\<close>, \<^verbatim>\<open>DataConfig\<close>)\<close>

text \<open>
  The fields the data manager itself reads. The sampler and noise settings of
  \<^verbatim>\<open>DataGenerationConfig\<close> only parametrise the external simulation. \<^verbatim>\<open>n_pop\<close> is
  declared \<^verbatim>\<open>float\<close> while its default is the integer 16384, so the field holds
  either an integer or a float. The three fractions are declared \<^verbatim>\<open>float\<close> and default
  to floats: each is given by the number written, and read as the double nearest to it.
\<close>

datatype number = IntVal int | FloatVal rat

record DataGenerationConfig =
  n_pop :: number
  traj_len :: int

record DataConfig =
  storage :: string
  train_fraction :: rat
  valid_fraction :: rat
  test_fraction :: rat
  t_skip :: int
  t_history :: int
  t_prediction :: int
  generation_config :: "DataGenerationConfig option"
  import_directory :: "string option"
  dynamic_updates_from :: "int option"

section \<open>The trajectory slicer (\<^verbatim>\<open>TrajectorySliceDataset\<close>)\<close>

text \<open>
  A trajectory is a tensor whose first dimension is time; it is modelled as the list of
  its rows, so \<^verbatim>\<open>traj.shape[0]\<close> is \<open>length traj\<close> and \<^verbatim>\<open>traj[a:b, :]\<close> is
  \<open>py_slice a b traj\<close>.
\<close>

record 'a TrajectorySliceDataset =
  t_skip :: int
  t_history :: int
  t_prediction :: int
  in_slices :: "'a list list"
  out_slices :: "'a list list"

text \<open>The body of the loop of \<^verbatim>\<open>add_sliced_trajectory\<close> at anchor \<open>i\<close>.\<close>

definition add_slice :: "'a list \<Rightarrow> int \<Rightarrow> 'a TrajectorySliceDataset \<Rightarrow> 'a TrajectorySliceDataset" where
  "add_slice traj i s =
     s\<lparr>in_slices := in_slices s @ [py_slice (i + 1 - t_history s) (i + 1) traj],
       out_slices := out_slices s @ [py_slice (i + 1) (i + 1 + t_prediction s) traj]\<rparr>"

text \<open>
  \<^verbatim>\<open>add_sliced_trajectory\<close>: the assertion \<^verbatim>\<open>first <= last\<close> comes before the loop, so
  when it fails nothing has been appended and the object is as it was.
\<close>

definition add_sliced_trajectory ::
  "'a TrajectorySliceDataset \<Rightarrow> 'a list \<Rightarrow> error + 'a TrajectorySliceDataset" where
  "add_sliced_trajectory s traj =
     (let traj_len = int (length traj);
          first = t_skip s;
          last = traj_len - t_prediction s
      in if \<not> first \<le> last then Inl AssertionError
         else Inr (fold (add_slice traj) [first..last - 1] s))"

fun add_all ::
  "'a TrajectorySliceDataset \<Rightarrow> 'a list list \<Rightarrow> error + 'a TrajectorySliceDataset" where
  "add_all s [] = Inr s"
| "add_all s (traj # trajs) =
     (case add_sliced_trajectory s traj of
        Inl e \<Rightarrow> Inl e
      | Inr s' \<Rightarrow> add_all s' trajs)"

text \<open>The constructor \<^verbatim>\<open>TrajectorySliceDataset.__init__\<close>.\<close>

definition TrajectorySliceDataset_init ::
  "'a list list \<Rightarrow> int \<Rightarrow> int \<Rightarrow> int \<Rightarrow> error + 'a TrajectorySliceDataset" where
  "TrajectorySliceDataset_init trajs sk h p =
     (if \<not> sk + 1 \<ge> h then Inl AssertionError
      else add_all \<lparr>t_skip = sk, t_history = h, t_prediction = p,
                    in_slices = [], out_slices = []\<rparr> trajs)"

text \<open>\<^verbatim>\<open>__len__\<close> and \<^verbatim>\<open>__getitem__\<close>.\<close>

definition len :: "'a TrajectorySliceDataset \<Rightarrow> int" where
  "len s = int (length (in_slices s))"

definition getitem :: "'a TrajectorySliceDataset \<Rightarrow> int \<Rightarrow> error + ('a list \<times> 'a list)" where
  "getitem s idx =
     (case py_nth (in_slices s) idx of
        Inl e \<Rightarrow> Inl e
      | Inr a \<Rightarrow> (case py_nth (out_slices s) idx of
                    Inl e \<Rightarrow> Inl e
                  | Inr b \<Rightarrow> Inr (a, b)))"

section \<open>The numeric file store (\<^verbatim>\<open>file_utils\<close>)\<close>

text \<open>
  A directory is the list of its entries, each a name with its content; a file system
  maps a path to the directory found there, \<open>None\<close> where there is none. The entries
  listed are the files: a subdirectory is found under its own path, and a directory is
  taken to hold none whose name starts with a digit. The name of a storage is taken as
  the absolute path that \<^verbatim>\<open>path.abspath\<close> makes of it.
\<close>

type_synonym 'c directory = "(string \<times> 'c) list"
type_synonym 'c filesystem = "string \<Rightarrow> 'c directory option"

definition TRAJ_EXTENSION :: string where
  "TRAJ_EXTENSION = ''.pt''"

text \<open>\<^verbatim>\<open>path.join(a, b)\<close> for a relative \<open>b\<close>.\<close>

definition path_join :: "string \<Rightarrow> string \<Rightarrow> string" where
  "path_join a b = (if a = [] then b else if last a = CHR ''/'' then a @ b else a @ ''/'' @ b)"

text \<open>
  The names \<^verbatim>\<open>fnmatch\<close> keeps for the pattern \<^verbatim>\<open>'[0-9]*' + extension\<close> when the
  extension holds no pattern character: one character of \<^verbatim>\<open>0\<close> to \<^verbatim>\<open>9\<close>, then
  anything, then the extension.
\<close>

definition fnmatch_numeric :: "string \<Rightarrow> string \<Rightarrow> bool" where
  "fnmatch_numeric extension name =
     (case name of
        [] \<Rightarrow> False
      | c # rest \<Rightarrow> c \<in> set ''0123456789'' \<and> suffix extension rest)"

text \<open>\<^verbatim>\<open>glob.has_magic\<close>: the characters that make \<^verbatim>\<open>glob\<close> read a string as a pattern.\<close>

definition has_magic :: "string \<Rightarrow> bool" where
  "has_magic s = list_ex (\<lambda>c. c \<in> set ''*?['') s"

text \<open>
  \<^verbatim>\<open>get_numeric_file_count\<close> is the length of
  \<^verbatim>\<open>glob.glob(path.join(directory, './[0-9]*' + extension))\<close>. The path and the
  extension go into the pattern as they are. When neither holds a pattern character (and
  the extension no \<^verbatim>\<open>/\<close>), \<^verbatim>\<open>glob\<close> lists the directory and keeps the names that match:
  \<open>names\<close> is what the directory at this path lists, nothing when there is none. Otherwise
  \<^verbatim>\<open>glob\<close> expands the path itself as a pattern and the result depends on whatever
  directories match it; the number of paths it then finds is \<open>globbed pattern\<close>, an
  argument of the model about which nothing is assumed.
\<close>

definition get_numeric_file_count ::
  "(string \<Rightarrow> nat) \<Rightarrow> string \<Rightarrow> string list \<Rightarrow> string \<Rightarrow> int" where
  "get_numeric_file_count globbed directory names extension =
     (if has_magic directory \<or> has_magic extension \<or> CHR ''/'' \<in> set extension
      then int (globbed (path_join directory (''./[0-9]*'' @ extension)))
      else int (length (filter (fnmatch_numeric extension) names)))"

text \<open>The names of a directory of the file system.\<close>

definition listdir :: "'c filesystem \<Rightarrow> string \<Rightarrow> string list" where
  "listdir fs d = (case fs d of None \<Rightarrow> [] | Some entries \<Rightarrow> map fst entries)"

text \<open>\<^verbatim>\<open>assure_created\<close> makes the directory when it is missing.\<close>

definition assure_created :: "string \<Rightarrow> 'c filesystem \<Rightarrow> 'c filesystem" where
  "assure_created d fs = (if fs d = None then fs(d \<mapsto> []) else fs)"

definition data_dir :: "string \<Rightarrow> string" where
  "data_dir storage_name = path_join storage_name ''data''"

text \<open>
  \<^verbatim>\<open>os.system\<close> hands its command line to the shell, and the two paths stand in it
  unquoted. The shell cuts the line into words at the spaces. Any other character that
  the shell gives a meaning to is outside this model: a command is modelled only when its
  paths are made of letters, digits, \<^verbatim>\<open>/\<close>, \<^verbatim>\<open>.\<close>, \<^verbatim>\<open>_\<close>, \<^verbatim>\<open>-\<close> and spaces, and
  the result is \<open>None\<close> otherwise.
\<close>

fun split_at :: "char \<Rightarrow> string \<Rightarrow> string list" where
  "split_at c [] = [[]]"
| "split_at c (x # xs) =
     (if x = c then [] # split_at c xs
      else (case split_at c xs of
              [] \<Rightarrow> [[x]]
            | w # ws \<Rightarrow> (x # w) # ws))"

definition shell_words :: "string \<Rightarrow> string list" where
  "shell_words line = filter (\<lambda>w. w \<noteq> []) (split_at (CHR '' '') line)"

definition shell_literal :: "string \<Rightarrow> bool" where
  "shell_literal s =
     list_all (\<lambda>c. c \<in> set ''abcdefghijklmnopqrstuvwxyzABCDEFGHIJKLMNOPQRSTUVWXYZ0123456789/._- '') s"

text \<open>\<^verbatim>\<open>path.dirname\<close> and \<^verbatim>\<open>path.basename\<close>.\<close>

definition dirname :: "string \<Rightarrow> string" where
  "dirname p =
     (let head = rev (dropWhile (\<lambda>c. c \<noteq> CHR ''/'') (rev p))
      in if list_all (\<lambda>c. c = CHR ''/'') head then head
         else rev (dropWhile (\<lambda>c. c = CHR ''/'') (rev head)))"

definition basename :: "string \<Rightarrow> string" where
  "basename p = rev (takeWhile (\<lambda>c. c \<noteq> CHR ''/'') (rev p))"

text \<open>
  An absolute path in normal form: \<^verbatim>\<open>/\<close>, then one or more components separated by
  single \<^verbatim>\<open>/\<close>, none of them empty, \<^verbatim>\<open>.\<close> or \<^verbatim>\<open>..\<close>. Only such a path is taken to
  name the directory that the file system has under it. An operand of a command is
  outside the model when it names an existing directory in another way, when it names a
  file (an entry of a directory), or when it starts with \<^verbatim>\<open>-\<close> (an option).
\<close>

definition normal_path :: "string \<Rightarrow> bool" where
  "normal_path p =
     (case split_at (CHR ''/'') p of
        [] # c # cs \<Rightarrow> list_all (\<lambda>w. w \<noteq> [] \<and> w \<noteq> ''.'' \<and> w \<noteq> ''..'') (c # cs)
      | _ \<Rightarrow> False)"

definition names_file :: "'c filesystem \<Rightarrow> string \<Rightarrow> bool" where
  "names_file fs w =
     (case fs (dirname w) of
        None \<Rightarrow> False
      | Some entries \<Rightarrow> basename w \<in> fst ` set entries)"

definition operand_modelled :: "'c filesystem \<Rightarrow> string \<Rightarrow> bool" where
  "operand_modelled fs w =
     (take 1 w \<noteq> ''-'' \<and> \<not> names_file fs w \<and> (fs w = None \<or> normal_path w))"

text \<open>
  \<^verbatim>\<open>rm -r\<close> removes each operand that exists with everything below it, and only
  complains about one that does not exist.
\<close>

definition remove_tree :: "string \<Rightarrow> 'c filesystem \<Rightarrow> 'c filesystem" where
  "remove_tree d fs =
     (if fs d = None then fs
      else (\<lambda>p. if p = d \<or> prefix (d @ ''/'') p then None else fs p))"

definition rm_r :: "string list \<Rightarrow> 'c filesystem \<Rightarrow> 'c filesystem option" where
  "rm_r operands fs =
     (if list_all (operand_modelled fs) operands then Some (fold remove_tree operands fs)
      else None)"

text \<open>
  \<^verbatim>\<open>cp -r\<close>: the last operand is the destination. With fewer than two operands, with
  several sources and a destination that is not a directory, with a source that does
  not exist, or with a destination whose parent does not exist, \<^verbatim>\<open>cp\<close> fails and
  copies nothing. A single source directory is copied, with everything below it, to a
  destination that does not exist. Copying into a destination that exists, or into the
  source itself, is outside the model.
\<close>

definition copy_tree :: "string \<Rightarrow> string \<Rightarrow> 'c filesystem \<Rightarrow> 'c filesystem" where
  "copy_tree src dst fs =
     (\<lambda>p. if p = dst \<or> prefix (dst @ ''/'') p then fs (src @ drop (length dst) p) else fs p)"

definition cp_r :: "string list \<Rightarrow> 'c filesystem \<Rightarrow> 'c filesystem option" where
  "cp_r operands fs =
     (if \<not> list_all (operand_modelled fs) operands then None
      else if length operands < 2 then Some fs
      else (let dst = last operands; srcs = butlast operands
            in if fs dst \<noteq> None then None
               else if length srcs \<noteq> 1 then Some fs
               else (let src = hd srcs
                     in if fs src = None then Some fs
                        else if \<not> normal_path dst \<or> prefix (src @ ''/'') dst then None
                        else if dirname dst \<noteq> ''/'' \<and> fs (dirname dst) = None then Some fs
                        else Some (copy_tree src dst fs))))"

text \<open>The two commands of \<^verbatim>\<open>import_data_to_storage\<close>, as \<^verbatim>\<open>os.system\<close> runs them.\<close>

definition os_system_rm_r :: "string \<Rightarrow> 'c filesystem \<Rightarrow> 'c filesystem option" where
  "os_system_rm_r storage_data_dir fs =
     (if shell_literal storage_data_dir then rm_r (shell_words storage_data_dir) fs else None)"

definition os_system_cp_r :: "string \<Rightarrow> string \<Rightarrow> 'c filesystem \<Rightarrow> 'c filesystem option" where
  "os_system_cp_r import_data_dir storage_data_dir fs =
     (if shell_literal import_data_dir \<and> shell_literal storage_data_dir
      then cp_r (shell_words import_data_dir @ shell_words storage_data_dir) fs
      else None)"

text \<open>
  \<^verbatim>\<open>import_data_to_storage\<close>. \<^verbatim>\<open>data_dir\<close> has made the storage directory and the
  target directory before the counts are taken. The result is the file system the call
  leaves, \<open>None\<close> when a command is outside the model.
\<close>

definition import_data_to_storage ::
  "(string \<Rightarrow> nat) \<Rightarrow> 'c filesystem \<Rightarrow> string \<Rightarrow> string \<Rightarrow> 'c filesystem option" where
  "import_data_to_storage globbed fs storage_name import_data_dir =
     (let storage_data_dir = data_dir storage_name;
          fs1 = assure_created storage_data_dir (assure_created storage_name fs);
          storage_traj_count =
            get_numeric_file_count globbed storage_data_dir (listdir fs1 storage_data_dir)
              TRAJ_EXTENSION;
          data_traj_count =
            get_numeric_file_count globbed import_data_dir (listdir fs1 import_data_dir)
              TRAJ_EXTENSION
      in if storage_traj_count \<noteq> data_traj_count
         then (case os_system_rm_r storage_data_dir fs1 of
                 None \<Rightarrow> None
               | Some fs2 \<Rightarrow> os_system_cp_r import_data_dir storage_data_dir fs2)
         else Some fs1)"

text \<open>What the docstring of \<^verbatim>\<open>get_numeric_file_count\<close> says is counted: a name made of
  decimal digits, at least one, followed by the extension.\<close>

definition integer_named :: "string \<Rightarrow> string \<Rightarrow> bool" where
  "integer_named extension name =
     (suffix extension name \<and>
      (let base = take (length name - length extension) name
       in base \<noteq> [] \<and> list_all (\<lambda>c. c \<in> set ''0123456789'') base))"

text \<open>Python's \<^verbatim>\<open>str\<close> of an integer, and \<^verbatim>\<open>trajectory_file\<close>: the name of trajectory
  \<open>i\<close> inside the data directory.\<close>

function str_nat :: "nat \<Rightarrow> string" where
  "str_nat n =
     (if n < 10 then [''0123456789'' ! n]
      else str_nat (n div 10) @ [''0123456789'' ! (n mod 10)])"
  by pat_completeness auto
termination
  by (relation "measure id") auto

definition str_int :: "int \<Rightarrow> string" where
  "str_int i = (if i < 0 then CHR ''-'' # str_nat (nat (- i)) else str_nat (nat i))"

definition trajectory_file :: "int \<Rightarrow> string" where
  "trajectory_file num_trajectory = str_int num_trajectory @ TRAJ_EXTENSION"

text \<open>\<^verbatim>\<open>get_trajectory_count\<close>, \<^verbatim>\<open>torch.load\<close> and \<^verbatim>\<open>torch.save\<close> on the data directory
  \<open>dir\<close> of the storage.\<close>

definition get_trajectory_count :: "(string \<Rightarrow> nat) \<Rightarrow> string \<Rightarrow> 'c directory \<Rightarrow> int" where
  "get_trajectory_count globbed storage_name dir =
     get_numeric_file_count globbed (data_dir storage_name) (map fst dir) TRAJ_EXTENSION"

definition torch_load :: "'c directory \<Rightarrow> string \<Rightarrow> error + 'c" where
  "torch_load dir name =
     (case map_of dir name of None \<Rightarrow> Inl FileNotFoundError | Some v \<Rightarrow> Inr v)"

definition torch_save :: "'c \<Rightarrow> string \<Rightarrow> 'c directory \<Rightarrow> 'c directory" where
  "torch_save v name dir = AList.update name v dir"

declare str_nat.simps [simp del]

section \<open>The data manager (\<^verbatim>\<open>SystemDataManager\<close>)\<close>

record 'a TrajectorySet =
  slices :: "'a TrajectorySliceDataset"
  trajectories :: "'a list list"

text \<open>
  The three sets are attributes that exist only once the first split has been computed
  (\<^verbatim>\<open>hasattr(self, 'train_set')\<close>): they are optional fields.
\<close>

record 'a SystemDataManager =
  config :: DataConfig
  n_on_disk :: int
  train_set :: "'a TrajectorySet option"
  valid_set :: "'a TrajectorySet option"
  test_set :: "'a TrajectorySet option"

text \<open>The mode flags of \<^verbatim>\<open>__init__\<close>, and its assertion that exactly one is set.\<close>

definition do_generate :: "DataConfig \<Rightarrow> bool" where
  "do_generate cfg = (generation_config cfg \<noteq> None)"

definition do_import :: "DataConfig \<Rightarrow> bool" where
  "do_import cfg = (import_directory cfg \<noteq> None)"

definition do_dynamics :: "DataConfig \<Rightarrow> bool" where
  "do_dynamics cfg = (dynamic_updates_from cfg \<noteq> None)"

definition one_data_source :: "DataConfig \<Rightarrow> bool" where
  "one_data_source cfg =
     (of_bool (do_generate cfg) + of_bool (do_import cfg) + of_bool (do_dynamics cfg) = (1 :: int))"

text \<open>The truth value Python gives \<^verbatim>\<open>config.dynamic_updates_from\<close> in a condition.\<close>

definition truthy :: "int option \<Rightarrow> bool" where
  "truthy v = (case v of None \<Rightarrow> False | Some k \<Rightarrow> k \<noteq> 0)"

definition make_trajectory_set :: "DataConfig \<Rightarrow> 'a list list \<Rightarrow> error + 'a TrajectorySet" where
  "make_trajectory_set cfg trajs =
     (case TrajectorySliceDataset_init trajs (DataConfig.t_skip cfg) (DataConfig.t_history cfg)
             (DataConfig.t_prediction cfg) of
        Inl e \<Rightarrow> Inl e
      | Inr slice_dataset \<Rightarrow> Inr \<lparr>slices = slice_dataset, trajectories = trajs\<rparr>)"

text \<open>
  \<^verbatim>\<open>torch.randperm(n)\<close> fails on a negative \<open>n\<close>. Its result is a random draw: the draw is
  an argument \<open>perm\<close> of the model, and the theorems hold for every \<open>perm\<close> that is a
  permutation of \<open>0, ..., n - 1\<close>.
\<close>

definition randperm :: "int list \<Rightarrow> int \<Rightarrow> error + int list" where
  "randperm perm n = (if n < 0 then Inl RuntimeError else Inr perm)"

definition is_randperm :: "int list \<Rightarrow> int \<Rightarrow> bool" where
  "is_randperm perm n = (distinct perm \<and> set perm = {0..<n})"

fun load_all :: "'a directory \<Rightarrow> int list \<Rightarrow> error + 'a list" where
  "load_all dir [] = Inr []"
| "load_all dir (i # selection) =
     (case torch_load dir (trajectory_file i) of
        Inl e \<Rightarrow> Inl e
      | Inr t \<Rightarrow> (case load_all dir selection of
                    Inl e \<Rightarrow> Inl e
                  | Inr ts \<Rightarrow> Inr (t # ts)))"

text \<open>The indices \<^verbatim>\<open>get_trajectories\<close> selects, and the function itself.\<close>

definition selection_of :: "int list \<Rightarrow> int \<Rightarrow> int \<Rightarrow> int list" where
  "selection_of perm N_begin N_requested = py_take N_requested (map (\<lambda>k. k + N_begin) perm)"

definition get_trajectories ::
  "'a list directory \<Rightarrow> int list \<Rightarrow> 'a SystemDataManager \<Rightarrow> int \<Rightarrow> int \<Rightarrow> int \<Rightarrow> error + 'a list list" where
  "get_trajectories dir perm m N_begin N_end N_requested =
     (if \<not> n_on_disk m \<ge> N_end then Inl AssertionError
      else case randperm perm (N_end - N_begin) of
             Inl e \<Rightarrow> Inl e
           | Inr p \<Rightarrow> load_all dir (selection_of p N_begin N_requested))"

text \<open>One pass of the loop over the three sets in the growth branch.\<close>

definition extend_set :: "'a TrajectorySet \<Rightarrow> 'a list list \<Rightarrow> error + 'a TrajectorySet" where
  "extend_set s trajectory_list =
     (case add_all (slices s) trajectory_list of
        Inl e \<Rightarrow> Inl e
      | Inr sl \<Rightarrow> Inr \<lparr>slices = sl, trajectories = trajectories s @ trajectory_list\<rparr>)"

text \<open>The three rounded counts, computed in this order in both branches of the split.\<close>

definition split_counts :: "int \<Rightarrow> DataConfig \<Rightarrow> error + int \<times> int \<times> int" where
  "split_counts n cfg =
     (case round_product n (train_fraction cfg) of
        Inl e \<Rightarrow> Inl e
      | Inr N_train \<Rightarrow>
         (case round_product n (valid_fraction cfg) of
            Inl e \<Rightarrow> Inl e
          | Inr N_valid \<Rightarrow>
             (case round_product n (test_fraction cfg) of
                Inl e \<Rightarrow> Inl e
              | Inr N_test \<Rightarrow> Inr (N_train, N_valid, N_test))))"

text \<open>
  \<^verbatim>\<open>get_trajectory_split\<close>. \<open>dir\<close> is the data directory of the storage as it stands
  when the call is made, \<open>perm\<close> the draw of \<^verbatim>\<open>randperm\<close>. The triple it returns is the
  three sets of the manager it leaves.
\<close>

definition get_trajectory_split ::
  "(string \<Rightarrow> nat) \<Rightarrow> 'a list directory \<Rightarrow> int list \<Rightarrow> 'a SystemDataManager \<Rightarrow>
   error + 'a SystemDataManager" where
  "get_trajectory_split globbed dir perm m =
     (let cfg = config m; n = n_on_disk m in
      if train_set m = None then
        (case split_counts n cfg of
           Inl e \<Rightarrow> Inl e
         | Inr (N_train, N_valid, N_test) \<Rightarrow>
            (let N_test = min N_test (n - N_train - N_valid);
                 N_tot = N_train + N_test + N_valid
             in case get_trajectories dir perm m 0 n N_tot of
                  Inl e \<Rightarrow> Inl e
                | Inr traj_set \<Rightarrow>
                   (let train_traj = py_take N_train traj_set;
                        traj_set = py_drop N_train traj_set;
                        valid_traj = py_take N_valid traj_set;
                        test_traj = py_drop N_valid traj_set
                    in case make_trajectory_set cfg train_traj of
                         Inl e \<Rightarrow> Inl e
                       | Inr tr \<Rightarrow>
                          (case make_trajectory_set cfg valid_traj of
                             Inl e \<Rightarrow> Inl e
                           | Inr va \<Rightarrow>
                              (case make_trajectory_set cfg test_traj of
                                 Inl e \<Rightarrow> Inl e
                               | Inr te \<Rightarrow>
                                  Inr (m\<lparr>train_set := Some tr, valid_set := Some va,
                                         test_set := Some te\<rparr>))))))
      else if truthy (dynamic_updates_from cfg) then
        (let n_on_disk_new = get_trajectory_count globbed (storage cfg) dir in
         if n_on_disk_new \<noteq> n then
           (let new_count = n_on_disk_new - n;
                m1 = m\<lparr>n_on_disk := n_on_disk_new\<rparr>
            in case split_counts new_count cfg of
                 Inl e \<Rightarrow> Inl e
               | Inr (N_train, N_valid, N_test) \<Rightarrow>
                  (let N_tot = N_train + N_test + N_valid
                   in case get_trajectories dir perm m1 n n_on_disk_new N_tot of
                        Inl e \<Rightarrow> Inl e
                      | Inr new_traj_set \<Rightarrow>
                         (let train_traj = py_take N_train new_traj_set;
                              new_traj_set = py_drop N_train new_traj_set;
                              valid_traj = py_take N_valid new_traj_set;
                              test_traj = py_drop N_valid new_traj_set
                          in case (train_set m1, valid_set m1, test_set m1) of
                               (Some tr, Some va, Some te) \<Rightarrow>
                                 (case extend_set tr train_traj of
                                    Inl e \<Rightarrow> Inl e
                                  | Inr tr' \<Rightarrow>
                                     (case extend_set va valid_traj of
                                        Inl e \<Rightarrow> Inl e
                                      | Inr va' \<Rightarrow>
                                         (case extend_set te test_traj of
                                            Inl e \<Rightarrow> Inl e
                                          | Inr te' \<Rightarrow>
                                             Inr (m1\<lparr>train_set := Some tr',
                                                     valid_set := Some va',
                                                     test_set := Some te'\<rparr>))))
                             | _ \<Rightarrow> Inl AttributeError)))
         else Inr m)
      else Inr m)"

section \<open>Population growth (\<^verbatim>\<open>SystemDataManager.generate\<close>)\<close>

text \<open>
  The external simulation, with the noise added to its result, is an argument of the
  model: \<open>system k T\<close> is the trajectory that the \<open>k\<close>-th call of
  \<^verbatim>\<open>sample_trajectory(T)\<close> ends up as. \<^verbatim>\<open>generate_trajectory_set\<close> makes \<open>N\<close> such
  calls, numbered from \<open>calls\<close> on.
\<close>

definition generate_trajectory_set ::
  "DataConfig \<Rightarrow> (nat \<Rightarrow> int \<Rightarrow> 'a list) \<Rightarrow> nat \<Rightarrow> int \<Rightarrow> int \<Rightarrow> error + 'a list list" where
  "generate_trajectory_set cfg system calls N T =
     (if \<not> N \<ge> 0 then Inl AssertionError
      else if \<not> T \<ge> 1 then Inl AssertionError
      else if generation_config cfg = None then Inl AssertionError
      else Inr (map (\<lambda>j. system (calls + j) T) [0..<nat N]))"

text \<open>
  The three places where the loop of \<^verbatim>\<open>generate\<close> uses \<^verbatim>\<open>n_pop\<close>, for an integer count
  \<open>n\<close>. Python compares an integer with a float exactly. \<^verbatim>\<open>n_pop - n_generated\<close> is an
  integer for an integer \<^verbatim>\<open>n_pop\<close> and a float for a float, and \<^verbatim>\<open>min(n_set, d)\<close>
  is \<open>d\<close> when \<open>d < n_set\<close> and \<^verbatim>\<open>n_set\<close> otherwise. The loop hands the result to
  \<^verbatim>\<open>range\<close> at once, which raises \<^verbatim>\<open>TypeError\<close> on a float: \<open>next_n_set\<close> is the
  new \<^verbatim>\<open>n_set\<close> when \<^verbatim>\<open>range\<close> accepts it.
\<close>

definition below_pop :: "int \<Rightarrow> number \<Rightarrow> bool" where
  "below_pop n pop =
     (case pop of
        IntVal p \<Rightarrow> n < p
      | FloatVal x \<Rightarrow> (case nearest_double x of None \<Rightarrow> 0 < x | Some f \<Rightarrow> of_int n < f))"

definition equals_pop :: "int \<Rightarrow> number \<Rightarrow> bool" where
  "equals_pop n pop =
     (case pop of
        IntVal p \<Rightarrow> n = p
      | FloatVal x \<Rightarrow> (case nearest_double x of None \<Rightarrow> False | Some f \<Rightarrow> of_int n = f))"

definition next_n_set :: "int \<Rightarrow> number \<Rightarrow> int \<Rightarrow> error + int" where
  "next_n_set n_set pop n =
     (case pop of
        IntVal p \<Rightarrow> Inr (min n_set (p - n))
      | FloatVal x \<Rightarrow>
         (case float_of_int n of
            Inl e \<Rightarrow> Inl e
          | Inr a \<Rightarrow>
             (case nearest_double x of
                None \<Rightarrow> if 0 < x then Inr n_set else Inl TypeError
              | Some f \<Rightarrow>
                 (case nearest_double (f - a) of
                    None \<Rightarrow> if f - a < 0 then Inl TypeError else Inr n_set
                  | Some d \<Rightarrow> if d < of_int n_set then Inl TypeError else Inr n_set))))"

text \<open>
  The state of the loop of \<^verbatim>\<open>generate\<close>: the data directory, the two loop variables,
  the number of simulation calls made, and two fields that only observe the run:
  \<open>ticks\<close> counts the accesses to the disk, \<open>written\<close> lists the indices handed to
  \<^verbatim>\<open>trajectory_file\<close> for saving, in order.

  Other writers share the directory. Before every access of the loop to the disk (reading
  the count, saving a file) the directory is changed by \<open>env t\<close>, where \<open>t\<close> is the number
  of the access: \<open>env\<close> is any function at all, so it stands for whatever other processes
  did in between.
\<close>

record 'a generation =
  disk :: "'a list directory"
  n_generated :: int
  n_set :: int
  calls :: nat
  ticks :: nat
  written :: "int list"

text \<open>The loop \<^verbatim>\<open>for i in range(n_set): torch.save(traj_i[i], ...)\<close>; it stops at the
  first error, with what has been saved so far.\<close>

fun save_batch ::
  "(nat \<Rightarrow> 'a list directory \<Rightarrow> 'a list directory) \<Rightarrow> 'a list list \<Rightarrow> int list \<Rightarrow>
   'a generation \<Rightarrow> error option \<times> 'a generation" where
  "save_batch env traj_i [] g = (None, g)"
| "save_batch env traj_i (i # rest) g =
     (case py_nth traj_i i of
        Inl e \<Rightarrow> (Some e, g)
      | Inr t \<Rightarrow>
          save_batch env traj_i rest
            (g\<lparr>disk := torch_save t (trajectory_file (n_generated g + i)) (env (ticks g) (disk g)),
               ticks := Suc (ticks g),
               written := written g @ [n_generated g + i]\<rparr>))"

text \<open>How a run of the loop ends: the loop condition or the \<^verbatim>\<open>break\<close> ended it, an
  exception left it, or the fuel of the model ran out while the loop was still going.\<close>

datatype 'a run = Finished "'a generation" | Raised error "'a generation" | Running "'a generation"

fun state_of :: "'a run \<Rightarrow> 'a generation" where
  "state_of (Finished g) = g"
| "state_of (Raised e g) = g"
| "state_of (Running g) = g"

text \<open>The \<^verbatim>\<open>while\<close> loop, one iteration for each unit of fuel; \<open>pop\<close> and \<open>T\<close> are
  the local variables \<^verbatim>\<open>n_pop\<close> and \<^verbatim>\<open>traj_len\<close>.\<close>

fun generate_loop ::
  "(string \<Rightarrow> nat) \<Rightarrow> DataConfig \<Rightarrow> (nat \<Rightarrow> int \<Rightarrow> 'a list) \<Rightarrow>
   (nat \<Rightarrow> 'a list directory \<Rightarrow> 'a list directory) \<Rightarrow>
   number \<Rightarrow> int \<Rightarrow> nat \<Rightarrow> 'a generation \<Rightarrow> 'a run" where
  "generate_loop globbed cfg system env pop T 0 g =
     (if below_pop (n_generated g) pop then Running g else Finished g)"
| "generate_loop globbed cfg system env pop T (Suc fuel) g =
     (if \<not> below_pop (n_generated g) pop then Finished g
      else case generate_trajectory_set cfg system (calls g) (n_set g) T of
             Inl e \<Rightarrow> Raised e g
           | Inr traj_i \<Rightarrow>
              (let disk1 = env (ticks g) (disk g);
                   g1 = g\<lparr>disk := disk1,
                          n_generated := get_trajectory_count globbed (storage cfg) disk1,
                          calls := calls g + length traj_i, ticks := Suc (ticks g)\<rparr>
               in if equals_pop (n_generated g1) pop then Finished g1
                  else (case next_n_set (n_set g1) pop (n_generated g1) of
                          Inl e \<Rightarrow> Raised e g1
                        | Inr k \<Rightarrow>
                           (let g2 = g1\<lparr>n_set := k\<rparr>
                            in case save_batch env traj_i [0..n_set g2 - 1] g2 of
                                 (Some e, g3) \<Rightarrow> Raised e g3
                               | (None, g3) \<Rightarrow>
                                   generate_loop globbed cfg system env pop T fuel g3))))"

text \<open>\<^verbatim>\<open>generate\<close>, started on the directory \<open>disk0\<close>.\<close>

definition generate ::
  "(string \<Rightarrow> nat) \<Rightarrow> DataConfig \<Rightarrow> (nat \<Rightarrow> int \<Rightarrow> 'a list) \<Rightarrow>
   (nat \<Rightarrow> 'a list directory \<Rightarrow> 'a list directory) \<Rightarrow> nat \<Rightarrow> 'a list directory \<Rightarrow> 'a run" where
  "generate globbed cfg system env fuel disk0 =
     (case generation_config cfg of
        None \<Rightarrow>
          Raised AssertionError
            \<lparr>disk = disk0, n_generated = 0, n_set = 30, calls = 0, ticks = 0, written = []\<rparr>
      | Some gc \<Rightarrow>
          (let disk1 = env 0 disk0
           in generate_loop globbed cfg system env (n_pop gc) (traj_len gc)
                fuel
                \<lparr>disk = disk1, n_generated = get_trajectory_count globbed (storage cfg) disk1,
                 n_set = 30, calls = 0, ticks = 1, written = []\<rparr>))"

text \<open>
  A data directory is dense when its files are \<^verbatim>\<open>0.pt\<close>, \<^verbatim>\<open>1.pt\<close>, ... in this order
  and nothing else, which is how generation leaves it; a writer appends only when it
  keeps a dense directory dense and never shortens it.
\<close>

definition dense :: "'c directory \<Rightarrow> bool" where
  "dense d = (map fst d = map (\<lambda>k. trajectory_file (int k)) [0..<length d])"

definition appends_only :: "(nat \<Rightarrow> 'c directory \<Rightarrow> 'c directory) \<Rightarrow> bool" where
  "appends_only env = (\<forall>t d. dense d \<longrightarrow> dense (env t d) \<and> length d \<le> length (env t d))"

text \<open>The value of a decimal digit, to read back what \<open>str_nat\<close> wrote.\<close>

definition digit_value :: "char \<Rightarrow> nat" where
  "digit_value c = length (takeWhile (\<lambda>d. d \<noteq> c) ''0123456789'')"

text \<open>What \<^verbatim>\<open>torch.load\<close> gives for each index of a selection, in order.\<close>

definition loads_of :: "'a directory \<Rightarrow> int list \<Rightarrow> (error + 'a) list" where
  "loads_of dir selection = map (\<lambda>i. torch_load dir (trajectory_file i)) selection"

text \<open>The default values of the two configuration classes.\<close>

definition DataGenerationConfig_default :: DataGenerationConfig where
  "DataGenerationConfig_default = \<lparr>n_pop = IntVal 16384, traj_len = 80\<rparr>"

definition DataConfig_default :: DataConfig where
  "DataConfig_default =
     \<lparr>storage = ''./'', train_fraction = 1 / 2, valid_fraction = 1 / 4, test_fraction = 1 / 4,
      DataConfig.t_skip = 0, DataConfig.t_history = 1, DataConfig.t_prediction = 1,
      generation_config = None, import_directory = None, dynamic_updates_from = None\<rparr>"

section \<open>Facts about Python slicing\<close>

lemma py_bound_nonneg: "0 \<le> i \<Longrightarrow> py_bound i n = min (nat i) n"
  by (simp add: py_bound_def)

lemma py_slice_window:
  assumes "0 \<le> a" "a \<le> b" "b \<le> int (length xs)"
  shows "py_slice a b xs = take (nat (b - a)) (drop (nat a) xs)"
  and "length (py_slice a b xs) = nat (b - a)"
proof -
  have lo: "py_bound a (length xs) = nat a" using assms by (simp add: py_bound_def)
  have hi: "py_bound b (length xs) = nat b" using assms by (simp add: py_bound_def)
  have d: "nat b - nat a = nat (b - a)" using assms by simp
  show "py_slice a b xs = take (nat (b - a)) (drop (nat a) xs)"
    by (simp add: py_slice_def Let_def lo hi d)
  then show "length (py_slice a b xs) = nat (b - a)"
    using assms by simp
qed

lemma py_take_nonneg: "0 \<le> n \<Longrightarrow> py_take n xs = take (nat n) xs"
  by (cases "nat n \<le> length xs") (simp_all add: py_take_def py_bound_def min_def)

lemma py_drop_nonneg: "0 \<le> n \<Longrightarrow> py_drop n xs = drop (nat n) xs"
  by (cases "nat n \<le> length xs") (simp_all add: py_drop_def py_bound_def min_def)

section \<open>The slicer appends, and nothing else\<close>

lemma fold_add_slice:
  "fold (add_slice traj) is s =
     s\<lparr>in_slices := in_slices s @ map (\<lambda>i. py_slice (i + 1 - t_history s) (i + 1) traj) is,
       out_slices := out_slices s @ map (\<lambda>i. py_slice (i + 1) (i + 1 + t_prediction s) traj) is\<rparr>"
proof (induction "is" arbitrary: s)
  case Nil
  show ?case by simp
next
  case (Cons i "is")
  show ?case by (simp add: Cons.IH) (simp add: add_slice_def)
qed

lemma upto_as_map: "[a..b] = map (\<lambda>k. a + int k) [0..<nat (b - a + 1)]"
  by (rule nth_equalityI) simp_all

lemma add_sliced_trajectory_Inr:
  assumes "t_skip s \<le> int (length traj) - t_prediction s"
  shows "add_sliced_trajectory s traj =
     Inr (s\<lparr>in_slices := in_slices s @
             map (\<lambda>i. py_slice (i + 1 - t_history s) (i + 1) traj)
                 [t_skip s..int (length traj) - t_prediction s - 1],
            out_slices := out_slices s @
             map (\<lambda>i. py_slice (i + 1) (i + 1 + t_prediction s) traj)
                 [t_skip s..int (length traj) - t_prediction s - 1]\<rparr>)"
  using assms by (simp add: add_sliced_trajectory_def Let_def fold_add_slice)

lemma add_sliced_trajectory_Inl:
  assumes "\<not> t_skip s \<le> int (length traj) - t_prediction s"
  shows "add_sliced_trajectory s traj = Inl AssertionError"
  using assms by (simp add: add_sliced_trajectory_def Let_def)

lemma add_sliced_trajectory_appends:
  assumes "add_sliced_trajectory s traj = Inr s'"
  shows "\<exists>ins outs. length ins = length outs \<and>
           s' = s\<lparr>in_slices := in_slices s @ ins, out_slices := out_slices s @ outs\<rparr>"
proof (cases "t_skip s \<le> int (length traj) - t_prediction s")
  case True
  show ?thesis
    using assms unfolding add_sliced_trajectory_Inr [OF True]
    by (intro exI [of _ "map (\<lambda>i. py_slice (i + 1 - t_history s) (i + 1) traj)
                 [t_skip s..int (length traj) - t_prediction s - 1]"]
          exI [of _ "map (\<lambda>i. py_slice (i + 1) (i + 1 + t_prediction s) traj)
                 [t_skip s..int (length traj) - t_prediction s - 1]"]) auto
next
  case False
  then show ?thesis using assms by (simp add: add_sliced_trajectory_Inl)
qed

lemma add_sliced_trajectory_config:
  assumes "add_sliced_trajectory s traj = Inr s'"
  shows "t_skip s' = t_skip s \<and> t_history s' = t_history s \<and> t_prediction s' = t_prediction s"
  using add_sliced_trajectory_appends [OF assms] by auto

lemma add_sliced_trajectory_balanced:
  assumes "add_sliced_trajectory s traj = Inr s'" "length (in_slices s) = length (out_slices s)"
  shows "length (in_slices s') = length (out_slices s')"
  using add_sliced_trajectory_appends [OF assms(1)] assms(2) by auto

lemma add_all_invariants:
  assumes "add_all s trajs = Inr s'"
  shows "t_skip s' = t_skip s \<and> t_history s' = t_history s \<and> t_prediction s' = t_prediction s \<and>
         (length (in_slices s) = length (out_slices s) \<longrightarrow>
          length (in_slices s') = length (out_slices s'))"
  using assms
proof (induction trajs arbitrary: s)
  case Nil
  then show ?case by simp
next
  case (Cons traj trajs)
  from Cons.prems obtain s1 where s1: "add_sliced_trajectory s traj = Inr s1"
    and rest: "add_all s1 trajs = Inr s'"
    by (auto split: sum.splits)
  from Cons.IH [OF rest] add_sliced_trajectory_config [OF s1]
    add_sliced_trajectory_balanced [OF s1]
  show ?case by auto
qed

lemma init_invariants:
  assumes "TrajectorySliceDataset_init trajs sk h p = Inr s"
  shows "t_skip s = sk \<and> t_history s = h \<and> t_prediction s = p \<and>
         length (in_slices s) = length (out_slices s)"
proof -
  from assms have "add_all \<lparr>t_skip = sk, t_history = h, t_prediction = p,
                    in_slices = [], out_slices = []\<rparr> trajs = Inr s"
    by (simp add: TrajectorySliceDataset_init_def split: if_splits)
  from add_all_invariants [OF this] show ?thesis by simp
qed

lemma py_nth_append:
  assumes "0 \<le> i" "i < int (length xs)"
  shows "py_nth (xs @ ys) i = py_nth xs i" "py_nth xs i = Inr (xs ! nat i)"
  using assms by (auto simp add: py_nth_def Let_def nth_append)

text \<open>The slices of one trajectory, whatever was stored before.\<close>

lemma add_sliced_trajectory_fresh:
  assumes "add_sliced_trajectory s traj = Inr s'"
  shows "\<exists>o'. add_sliced_trajectory (s\<lparr>in_slices := [], out_slices := []\<rparr>) traj = Inr o' \<and>
     in_slices s' = in_slices s @ in_slices o' \<and> out_slices s' = out_slices s @ out_slices o'"
proof (cases "t_skip s \<le> int (length traj) - t_prediction s")
  case True
  then have T: "t_skip (s\<lparr>in_slices := [], out_slices := []\<rparr>)
      \<le> int (length traj) - t_prediction (s\<lparr>in_slices := [], out_slices := []\<rparr>)"
    by simp
  show ?thesis
    using assms unfolding add_sliced_trajectory_Inr [OF True] add_sliced_trajectory_Inr [OF T]
    by auto
next
  case False
  then show ?thesis using assms by (simp add: add_sliced_trajectory_Inl)
qed

text \<open>A slicer that has been appended to is the slicer the constructor builds on the
  longer list, so the slicers the constructor builds are all the slicers there are.\<close>

lemma add_all_snoc:
  assumes "add_all s trajs = Inr s1" and "add_sliced_trajectory s1 traj = Inr s2"
  shows "add_all s (trajs @ [traj]) = Inr s2"
  using assms
proof (induction trajs arbitrary: s)
  case Nil
  then show ?case by simp
next
  case (Cons t trajs)
  from Cons.prems(1) obtain s' where s': "add_sliced_trajectory s t = Inr s'"
    "add_all s' trajs = Inr s1"
    by (auto split: sum.splits)
  from Cons.IH [OF s'(2) Cons.prems(2)] s'(1) show ?case by simp
qed

lemma constructor_reaches_appended:
  assumes "TrajectorySliceDataset_init trajs sk h p = Inr s"
    and "add_sliced_trajectory s traj = Inr s'"
  shows "TrajectorySliceDataset_init (trajs @ [traj]) sk h p = Inr s'"
proof -
  from assms(1) have ok: "sk + 1 \<ge> h"
    and built: "add_all \<lparr>t_skip = sk, t_history = h, t_prediction = p,
                    in_slices = [], out_slices = []\<rparr> trajs = Inr s"
    by (simp_all add: TrajectorySliceDataset_init_def split: if_splits)
  from add_all_snoc [OF built assms(2)] ok show ?thesis
    by (simp add: TrajectorySliceDataset_init_def)
qed

section \<open>Claims about the slicer\<close>

text \<open>
  \<^bold>\<open>C3\<close>, as amended. Let the windows satisfy \<open>t_skip + 1 \<ge> t_history\<close>,
  \<open>t_history \<ge> 1\<close> and \<open>t_prediction \<ge> 1\<close>, and let the trajectory have length
  \<open>L \<ge> t_skip + t_prediction\<close>. Then appending it succeeds and adds exactly
  \<open>max 0 (L - t_prediction - t_skip)\<close> slice pairs after the stored ones. The pair number
  \<open>k\<close> is anchored at time \<open>t_skip + k\<close>: its history window is the \<open>t_history\<close> rows
  ending at the anchor and its future window the \<open>t_prediction\<close> rows after it, so the
  windows have exactly these lengths. (A shorter trajectory fails the assertion, see the
  counterexample.)
\<close>

theorem add_sliced_trajectory_slice_count:
  fixes s :: "'a TrajectorySliceDataset" and traj :: "'a list"
  defines "L \<equiv> int (length traj)"
  defines "n \<equiv> nat (max 0 (L - t_prediction s - t_skip s))"
  assumes cfg: "t_skip s + 1 \<ge> t_history s" "t_history s \<ge> 1" "t_prediction s \<ge> 1"
    and long: "L \<ge> t_skip s + t_prediction s"
  shows "\<exists>s'. add_sliced_trajectory s traj = Inr s' \<and>
     in_slices s' = in_slices s @
       map (\<lambda>k. take (nat (t_history s)) (drop (nat (t_skip s + 1 - t_history s) + k) traj)) [0..<n] \<and>
     out_slices s' = out_slices s @
       map (\<lambda>k. take (nat (t_prediction s)) (drop (nat (t_skip s) + 1 + k) traj)) [0..<n] \<and>
     length (in_slices s') = length (in_slices s) + n \<and>
     length (out_slices s') = length (out_slices s) + n \<and>
     (\<forall>k<n. length (in_slices s' ! (length (in_slices s) + k)) = nat (t_history s) \<and>
            length (out_slices s' ! (length (out_slices s) + k)) = nat (t_prediction s))"
proof -
  let ?sk = "t_skip s" and ?h = "t_history s" and ?p = "t_prediction s"
  have first_last: "?sk \<le> L - ?p" using long by simp
  have n_eq: "nat (L - ?p - 1 - ?sk + 1) = n" using long by (simp add: n_def)
  have range: "[?sk..L - ?p - 1] = map (\<lambda>k. ?sk + int k) [0..<n]"
    using upto_as_map [of ?sk "L - ?p - 1"] n_eq by simp
  have inw: "py_slice (?sk + int k + 1 - ?h) (?sk + int k + 1) traj
      = take (nat ?h) (drop (nat (?sk + 1 - ?h) + k) traj)" if "k < n" for k
  proof -
    have "int k < L - ?p - ?sk" using that by (simp add: n_def)
    then have b: "0 \<le> ?sk + int k + 1 - ?h" "?sk + int k + 1 - ?h \<le> ?sk + int k + 1"
      "?sk + int k + 1 \<le> int (length traj)"
      using cfg by (simp_all add: L_def)
    have "nat (?sk + int k + 1 - ?h) = nat (?sk + 1 - ?h) + k" using cfg by simp
    moreover have "nat (?sk + int k + 1 - (?sk + int k + 1 - ?h)) = nat ?h" by simp
    ultimately show ?thesis using py_slice_window(1) [OF b] by simp
  qed
  have outw: "py_slice (?sk + int k + 1) (?sk + int k + 1 + ?p) traj
      = take (nat ?p) (drop (nat ?sk + 1 + k) traj)" if "k < n" for k
  proof -
    have "int k < L - ?p - ?sk" using that by (simp add: n_def)
    then have b: "0 \<le> ?sk + int k + 1" "?sk + int k + 1 \<le> ?sk + int k + 1 + ?p"
      "?sk + int k + 1 + ?p \<le> int (length traj)"
      using cfg by (simp_all add: L_def)
    have "nat (?sk + int k + 1) = nat ?sk + 1 + k" using cfg by simp
    moreover have "nat (?sk + int k + 1 + ?p - (?sk + int k + 1)) = nat ?p" by simp
    ultimately show ?thesis using py_slice_window(1) [OF b] by simp
  qed
  have inl: "length (take (nat ?h) (drop (nat (?sk + 1 - ?h) + k) traj)) = nat ?h" if "k < n" for k
  proof -
    have "int k < L - ?p - ?sk" using that by (simp add: n_def)
    then show ?thesis using cfg by (simp add: L_def)
  qed
  have outl: "length (take (nat ?p) (drop (nat ?sk + 1 + k) traj)) = nat ?p" if "k < n" for k
  proof -
    have "int k < L - ?p - ?sk" using that by (simp add: n_def)
    then show ?thesis using cfg by (simp add: L_def)
  qed
  define s' where "s' = s\<lparr>in_slices := in_slices s @
       map (\<lambda>k. take (nat ?h) (drop (nat (?sk + 1 - ?h) + k) traj)) [0..<n],
     out_slices := out_slices s @
       map (\<lambda>k. take (nat ?p) (drop (nat ?sk + 1 + k) traj)) [0..<n]\<rparr>"
  have "add_sliced_trajectory s traj = Inr s'"
    unfolding s'_def add_sliced_trajectory_Inr [OF first_last [unfolded L_def]]
    using range inw outw by (simp add: L_def o_def cong: map_cong)
  moreover have "\<forall>k<n. length (in_slices s' ! (length (in_slices s) + k)) = nat ?h \<and>
            length (out_slices s' ! (length (out_slices s) + k)) = nat ?p"
    using inl outl by (simp add: s'_def nth_append)
  ultimately show ?thesis by (simp add: s'_def)
qed

text \<open>A trajectory of four rows with \<open>t_skip = 1\<close>, \<open>t_history = 2\<close>, \<open>t_prediction = 1\<close>:
  two pairs, anchored at times 1 and 2.\<close>

theorem add_sliced_trajectory_slice_count_witness:
  "\<exists>s'. add_sliced_trajectory
        \<lparr>t_skip = 1, t_history = 2, t_prediction = 1, in_slices = [], out_slices = []\<rparr>
        [10, 20, 30, 40 :: nat] = Inr s' \<and>
      in_slices s' = [[10, 20], [20, 30]] \<and> out_slices s' = [[30], [40]]"
  using add_sliced_trajectory_slice_count
    [of "\<lparr>t_skip = 1, t_history = 2, t_prediction = 1, in_slices = [], out_slices = []\<rparr>"
        "[10, 20, 30, 40 :: nat]"]
  by (auto simp add: upt_rec)

text \<open>The claim as stated fails for a trajectory of length 2 with \<open>t_skip = 1\<close> and
  \<open>t_prediction = 2\<close>: it promises \<open>max 0 (2 - 2 - 1) = 0\<close> slice pairs, the code raises.\<close>

theorem add_sliced_trajectory_slice_count_counterexample:
  "add_sliced_trajectory
      \<lparr>t_skip = 1, t_history = 2, t_prediction = 2, in_slices = [], out_slices = []\<rparr>
      [10, 20 :: nat] = Inl AssertionError"
  by (simp add: add_sliced_trajectory_def)

text \<open>
  \<^bold>\<open>C4\<close>. Take any slicer the constructor has built, append \<open>A\<close> and then \<open>B\<close>. The
  slices are those held before, followed by the slices of \<open>A\<close> alone, followed by the
  slices of \<open>B\<close> alone (each as a slicer built on that one trajectory gives them); and
  every index \<open>0 \<le> i < len\<close> that was valid before \<open>B\<close> was appended returns the same
  pair afterwards.
\<close>

theorem append_stability:
  assumes built: "TrajectorySliceDataset_init trajs sk h p = Inr s0"
    and addA: "add_sliced_trajectory s0 A = Inr sA"
    and addB: "add_sliced_trajectory sA B = Inr sAB"
  shows "\<exists>oA oB. TrajectorySliceDataset_init [A] sk h p = Inr oA \<and>
           TrajectorySliceDataset_init [B] sk h p = Inr oB \<and>
           in_slices sAB = in_slices s0 @ in_slices oA @ in_slices oB \<and>
           out_slices sAB = out_slices s0 @ out_slices oA @ out_slices oB \<and>
           len sAB = len sA + len oB \<and>
           (\<forall>i. 0 \<le> i \<and> i < len sA \<longrightarrow>
              getitem sAB i = getitem sA i \<and>
              getitem sA i = Inr (in_slices sA ! nat i, out_slices sA ! nat i))"
proof -
  from init_invariants [OF built]
  have c0: "t_skip s0 = sk" "t_history s0 = h" "t_prediction s0 = p"
    and b0: "length (in_slices s0) = length (out_slices s0)" by simp_all
  from built have ok: "sk + 1 \<ge> h"
    by (simp add: TrajectorySliceDataset_init_def split: if_splits)
  have cA: "t_skip sA = sk" "t_history sA = h" "t_prediction sA = p"
    using add_sliced_trajectory_config [OF addA] c0 by simp_all
  have bA: "length (in_slices sA) = length (out_slices sA)"
    using add_sliced_trajectory_balanced [OF addA b0] .
  let ?e = "\<lparr>t_skip = sk, t_history = h, t_prediction = p, in_slices = [], out_slices = []\<rparr>
              :: 'a TrajectorySliceDataset"
  have e0: "s0\<lparr>in_slices := [], out_slices := []\<rparr> = ?e" using c0 by simp
  have eA: "sA\<lparr>in_slices := [], out_slices := []\<rparr> = ?e" using cA by simp
  from add_sliced_trajectory_fresh [OF addA] e0 obtain oA where
    oA: "add_sliced_trajectory ?e A = Inr oA"
    "in_slices sA = in_slices s0 @ in_slices oA" "out_slices sA = out_slices s0 @ out_slices oA"
    by auto
  from add_sliced_trajectory_fresh [OF addB] eA obtain oB where
    oB: "add_sliced_trajectory ?e B = Inr oB"
    "in_slices sAB = in_slices sA @ in_slices oB" "out_slices sAB = out_slices sA @ out_slices oB"
    by auto
  have iA: "TrajectorySliceDataset_init [A] sk h p = Inr oA"
    using ok oA(1) by (simp add: TrajectorySliceDataset_init_def)
  have iB: "TrajectorySliceDataset_init [B] sk h p = Inr oB"
    using ok oB(1) by (simp add: TrajectorySliceDataset_init_def)
  have stable: "getitem sAB i = getitem sA i \<and>
      getitem sA i = Inr (in_slices sA ! nat i, out_slices sA ! nat i)"
    if "0 \<le> i \<and> i < len sA" for i
  proof -
    from that have i: "0 \<le> i" "i < int (length (in_slices sA))" by (simp_all add: len_def)
    with bA have j: "i < int (length (out_slices sA))" by simp
    show ?thesis
      by (simp add: getitem_def oB(2,3) py_nth_append [OF i] py_nth_append [OF i(1) j])
  qed
  show ?thesis
    using iA iB oA(2,3) oB(2,3) stable by (simp add: len_def)
qed

text \<open>Appending \<open>[4, 5]\<close> after \<open>[1, 2, 3]\<close> with windows of one row each.\<close>

theorem append_stability_witness:
  "\<exists>s0 sA sAB.
     TrajectorySliceDataset_init [] 0 1 1 = Inr s0 \<and>
     add_sliced_trajectory s0 [1, 2, 3 :: nat] = Inr sA \<and>
     add_sliced_trajectory sA [4, 5] = Inr sAB \<and>
     len sA = 2 \<and> len sAB = 3 \<and>
     getitem sA 0 = Inr ([1], [2]) \<and> getitem sAB 0 = Inr ([1], [2]) \<and>
     getitem sA 1 = Inr ([2], [3]) \<and> getitem sAB 1 = Inr ([2], [3]) \<and>
     getitem sAB 2 = Inr ([4], [5])"
proof -
  define s0 :: "nat TrajectorySliceDataset" where
    "s0 = \<lparr>t_skip = 0, t_history = 1, t_prediction = 1, in_slices = [], out_slices = []\<rparr>"
  define sA where "sA = s0\<lparr>in_slices := [[1], [2]], out_slices := [[2], [3]]\<rparr>"
  define sAB where "sAB = s0\<lparr>in_slices := [[1], [2], [4]], out_slices := [[2], [3], [5]]\<rparr>"
  have h0: "TrajectorySliceDataset_init [] 0 1 1 = Inr s0"
    by (simp add: TrajectorySliceDataset_init_def s0_def)
  have hA: "add_sliced_trajectory s0 [1, 2, 3] = Inr sA"
    by (simp add: add_sliced_trajectory_def Let_def add_slice_def py_slice_def py_bound_def
        upto.simps s0_def sA_def)
  have hB: "add_sliced_trajectory sA [4, 5] = Inr sAB"
    by (simp add: add_sliced_trajectory_def Let_def add_slice_def py_slice_def py_bound_def
        upto.simps s0_def sA_def sAB_def)
  from append_stability [OF h0 hA hB]
  have st: "\<forall>i. 0 \<le> i \<and> i < len sA \<longrightarrow> getitem sAB i = getitem sA i" by blast
  have lA: "len sA = 2" by (simp add: len_def sA_def)
  have "getitem sAB 0 = getitem sA 0" "getitem sAB 1 = getitem sA 1"
    using st lA by simp_all
  moreover have "getitem sA 0 = Inr ([1], [2])" "getitem sA 1 = Inr ([2], [3])"
    "getitem sAB 2 = Inr ([4], [5])" "len sAB = 3"
    by (simp_all add: getitem_def py_nth_def sA_def sAB_def len_def)
  ultimately show ?thesis using h0 hA hB lA by auto
qed

text \<open>
  \<^bold>\<open>C7\<close>, as amended. A trajectory whose length is exactly \<open>t_skip + t_prediction\<close> has
  no anchor: appending it succeeds, adds nothing and leaves the slicer as it was. A
  trajectory shorter than \<open>t_skip + t_prediction\<close> is refused with an assertion error
  (raised before anything is appended).
\<close>

theorem add_sliced_trajectory_no_anchor:
  fixes s :: "'a TrajectorySliceDataset" and traj :: "'a list"
  shows "(int (length traj) = t_skip s + t_prediction s \<longrightarrow> add_sliced_trajectory s traj = Inr s) \<and>
         (int (length traj) < t_skip s + t_prediction s \<longrightarrow>
            add_sliced_trajectory s traj = Inl AssertionError)"
  by (simp add: add_sliced_trajectory_def Let_def)

text \<open>Both cases with \<open>t_skip = 1\<close> and \<open>t_prediction = 1\<close>: length 2 and length 1.\<close>

theorem add_sliced_trajectory_no_anchor_witness:
  "add_sliced_trajectory
      \<lparr>t_skip = 1, t_history = 1, t_prediction = 1, in_slices = [[7]], out_slices = [[8]]\<rparr>
      [3, 4 :: nat]
    = Inr \<lparr>t_skip = 1, t_history = 1, t_prediction = 1, in_slices = [[7]], out_slices = [[8]]\<rparr> \<and>
   add_sliced_trajectory
      \<lparr>t_skip = 1, t_history = 1, t_prediction = 1, in_slices = [[7]], out_slices = [[8]]\<rparr>
      [3 :: nat] = Inl AssertionError"
  using add_sliced_trajectory_no_anchor
    [of "[3, 4 :: nat]"
        "\<lparr>t_skip = 1, t_history = 1, t_prediction = 1, in_slices = [[7]], out_slices = [[8]]\<rparr>"]
    add_sliced_trajectory_no_anchor
    [of "[3 :: nat]"
        "\<lparr>t_skip = 1, t_history = 1, t_prediction = 1, in_slices = [[7]], out_slices = [[8]]\<rparr>"]
  by simp

text \<open>The claim as stated fails for the empty trajectory with \<open>t_skip = 0\<close> and
  \<open>t_prediction = 1\<close>: its length is below \<open>t_skip + t_prediction\<close>, and appending it is an
  error, not a silent no-op.\<close>

theorem add_sliced_trajectory_no_anchor_counterexample:
  "add_sliced_trajectory
      \<lparr>t_skip = 0, t_history = 1, t_prediction = 1, in_slices = [[7]], out_slices = [[8]]\<rparr>
      ([] :: nat list) = Inl AssertionError"
  by (simp add: add_sliced_trajectory_def)

section \<open>Claims about the numeric file store\<close>

lemma integer_named_fnmatch:
  assumes "integer_named extension name"
  shows "fnmatch_numeric extension name"
proof -
  define base where "base = take (length name - length extension) name"
  from assms have suf: "suffix extension name" and ne: "base \<noteq> []"
    and dig: "list_all (\<lambda>c. c \<in> set ''0123456789'') base"
    by (simp_all add: integer_named_def Let_def base_def)
  from suf obtain pre where name: "name = pre @ extension" by (auto simp: suffix_def)
  then have "base = pre" by (simp add: base_def)
  with ne obtain c rest where pre: "pre = c # rest" by (cases pre) auto
  with dig \<open>base = pre\<close> have "c \<in> set ''0123456789''" by simp
  moreover have "suffix extension (rest @ extension)" by (simp add: suffix_def)
  ultimately show ?thesis by (simp add: fnmatch_numeric_def name pre)
qed

lemma count_of_integer_named_directory:
  assumes "\<forall>name \<in> set names. integer_named extension name"
    and "\<not> has_magic directory" "\<not> has_magic extension" "CHR ''/'' \<notin> set extension"
  shows "get_numeric_file_count globbed directory names extension = int (length names)"
proof -
  have "filter (fnmatch_numeric extension) names = names"
    using assms(1) by (auto intro: integer_named_fnmatch simp: filter_id_conv)
  then show ?thesis using assms(2-) by (simp add: get_numeric_file_count_def)
qed

text \<open>
  \<^bold>\<open>C9\<close>. The count is a cardinality: no index is looked at, and a directory whose
  names are all integer names counts as many files as it lists, whatever the integers
  (\<open>count_of_integer_named_directory\<close>, for a path and an extension without pattern
  characters). But the pattern \<^verbatim>\<open>[0-9]*\<close> only asks for a leading digit: in the
  directory \<^verbatim>\<open>/fldr\<close> holding \<^verbatim>\<open>7.pt\<close>, \<^verbatim>\<open>11.pt\<close>, \<^verbatim>\<open>1a.pt\<close> and \<^verbatim>\<open>4.pt\<close> the
  function counts four files, while three have an integer basename, which is what its
  docstring and the claim say it counts.
\<close>

theorem get_numeric_file_count_not_only_integers:
  "get_numeric_file_count globbed ''/fldr'' [''7.pt'', ''11.pt'', ''1a.pt'', ''4.pt''] ''.pt'' = 4 \<and>
   int (length (filter (integer_named ''.pt'') [''7.pt'', ''11.pt'', ''1a.pt'', ''4.pt''])) = 3"
  by (simp add: get_numeric_file_count_def has_magic_def fnmatch_numeric_def integer_named_def
      suffix_Cons)

text \<open>
  Import between two directories whose paths are single words of plain characters, in
  normal form, neither lying inside the other, and neither the name of a file. With equal
  counts the file system is left as \<^verbatim>\<open>data_dir\<close> made it. With different counts the
  target afterwards holds what the source held, nothing outside the target has changed,
  and the counts are equal.
\<close>

lemma split_at_absent: "c \<notin> set xs \<Longrightarrow> split_at c xs = [xs]"
  by (induction xs) auto

lemma shell_words_single:
  assumes "CHR '' '' \<notin> set p" and "p \<noteq> []"
  shows "shell_words p = [p]"
  using assms by (simp add: shell_words_def split_at_absent)

lemma shell_literal_no_magic:
  assumes "shell_literal p"
  shows "\<not> has_magic p"
proof -
  have "\<forall>c \<in> set ''*?[''. c \<notin> set ''abcdefghijklmnopqrstuvwxyzABCDEFGHIJKLMNOPQRSTUVWXYZ0123456789/._- ''"
    by code_simp
  with assms show ?thesis
    unfolding shell_literal_def has_magic_def list_all_iff list_ex_iff by blast
qed

lemma normal_path_nonempty: "normal_path p \<Longrightarrow> p \<noteq> [] \<and> take 1 p \<noteq> ''-''"
  by (cases p) (auto simp add: normal_path_def split: list.splits if_splits)

lemma names_file_remove_tree:
  "names_file (remove_tree d fs) w \<Longrightarrow> names_file fs w"
  by (auto simp add: names_file_def remove_tree_def split: option.splits if_splits)

lemma names_file_assure_created:
  "names_file (assure_created d fs) w \<Longrightarrow> names_file fs w"
  by (auto simp add: names_file_def assure_created_def split: option.splits if_splits)

lemma import_data_to_storage_plain:
  fixes fs :: "'c filesystem" and storage_name import_data_dir :: string
    and globbed :: "string \<Rightarrow> nat"
  defines "target \<equiv> data_dir storage_name"
  defines "fs1 \<equiv> assure_created target (assure_created storage_name fs)"
  defines "count \<equiv> \<lambda>fs d. get_numeric_file_count globbed d (listdir fs d) TRAJ_EXTENSION"
  assumes lit: "shell_literal target" "shell_literal import_data_dir"
    and one: "CHR '' '' \<notin> set target" "CHR '' '' \<notin> set import_data_dir"
    and norm: "normal_path target" "normal_path import_data_dir"
    and parent: "dirname target = storage_name" "storage_name \<noteq> target"
      "\<not> prefix (target @ ''/'') storage_name"
    and files: "\<not> names_file fs target" "\<not> names_file fs import_data_dir"
    and apart: "\<not> prefix (import_data_dir @ ''/'') target"
      "\<not> prefix (target @ ''/'') import_data_dir"
  shows "(count fs1 target = count fs1 import_data_dir \<longrightarrow>
            import_data_to_storage globbed fs storage_name import_data_dir = Some fs1) \<and>
         (count fs1 target \<noteq> count fs1 import_data_dir \<longrightarrow>
            (\<exists>fs'. import_data_to_storage globbed fs storage_name import_data_dir = Some fs' \<and>
               fs' target = fs1 import_data_dir \<and>
               (\<forall>d. d \<noteq> target \<and> \<not> prefix (target @ ''/'') d \<longrightarrow> fs' d = fs1 d) \<and>
               count fs' target = count fs' import_data_dir))"
proof (intro conjI impI)
  assume "count fs1 target = count fs1 import_data_dir"
  then show "import_data_to_storage globbed fs storage_name import_data_dir = Some fs1"
    by (simp add: import_data_to_storage_def Let_def count_def fs1_def target_def)
next
  assume ne: "count fs1 target \<noteq> count fs1 import_data_dir"
  then have diff: "import_data_dir \<noteq> target" by auto
  define fs2 where "fs2 = remove_tree target fs1"
  have ex1: "fs1 target \<noteq> None" by (simp add: fs1_def assure_created_def)
  have nf1: "\<not> names_file fs1 target" "\<not> names_file fs1 import_data_dir"
    using files unfolding fs1_def by (auto dest!: names_file_assure_created)
  have nf2: "\<not> names_file fs2 target" "\<not> names_file fs2 import_data_dir"
    using nf1 unfolding fs2_def by (auto dest: names_file_remove_tree)
  have wt: "shell_words target = [target]"
    using one(1) normal_path_nonempty [OF norm(1)] by (simp add: shell_words_single)
  have ws: "shell_words import_data_dir = [import_data_dir]"
    using one(2) normal_path_nonempty [OF norm(2)] by (simp add: shell_words_single)
  have rm: "os_system_rm_r target fs1 = Some fs2"
    using lit(1) wt nf1(1) norm(1) normal_path_nonempty [OF norm(1)]
    by (simp add: os_system_rm_r_def rm_r_def operand_modelled_def fs2_def)
  have fs2: "fs2 = (\<lambda>p. if p = target \<or> prefix (target @ ''/'') p then None else fs1 p)"
    using ex1 by (auto simp add: fs2_def remove_tree_def)
  have src2: "fs2 import_data_dir = fs1 import_data_dir"
    using diff apart(2) by (simp add: fs2)
  have par2: "fs2 (dirname target) \<noteq> None"
  proof -
    have "fs1 storage_name \<noteq> None" by (simp add: fs1_def assure_created_def)
    then show ?thesis using parent by (simp add: fs2)
  qed
  define fs' where "fs' = (if fs1 import_data_dir = None then fs2
      else copy_tree import_data_dir target fs2)"
  have tgt2: "fs2 target = None" by (simp add: fs2)
  have om: "operand_modelled fs2 import_data_dir" "operand_modelled fs2 target"
    using nf2 norm normal_path_nonempty [OF norm(1)] normal_path_nonempty [OF norm(2)]
    by (simp_all add: operand_modelled_def)
  have cp: "os_system_cp_r import_data_dir target fs2 = Some fs'"
    using lit wt ws om tgt2 src2 par2 norm(1) apart(1)
    by (auto simp add: os_system_cp_r_def cp_r_def fs'_def Let_def)
  have run: "import_data_to_storage globbed fs storage_name import_data_dir = Some fs'"
    using ne rm cp
    by (simp add: import_data_to_storage_def Let_def count_def fs1_def [symmetric]
        target_def [symmetric])
  have t: "fs' target = fs1 import_data_dir"
  proof (cases "fs1 import_data_dir = None")
    case True
    then show ?thesis by (simp add: fs'_def tgt2)
  next
    case False
    then show ?thesis by (auto simp add: fs'_def copy_tree_def src2)
  qed
  have o: "\<forall>d. d \<noteq> target \<and> \<not> prefix (target @ ''/'') d \<longrightarrow> fs' d = fs1 d"
    by (simp add: fs'_def copy_tree_def fs2)
  from o diff apart(2) have s: "fs' import_data_dir = fs1 import_data_dir" by simp
  have m: "\<not> has_magic target" "\<not> has_magic import_data_dir"
    using lit by (simp_all add: shell_literal_no_magic)
  have ext: "\<not> has_magic TRAJ_EXTENSION" "CHR ''/'' \<notin> set TRAJ_EXTENSION"
    by (simp_all add: TRAJ_EXTENSION_def has_magic_def)
  have c: "count fs' target = count fs' import_data_dir"
    using m ext by (simp add: count_def get_numeric_file_count_def listdir_def t s)
  show "\<exists>fs'. import_data_to_storage globbed fs storage_name import_data_dir = Some fs' \<and>
               fs' target = fs1 import_data_dir \<and>
               (\<forall>d. d \<noteq> target \<and> \<not> prefix (target @ ''/'') d \<longrightarrow> fs' d = fs1 d) \<and>
               count fs' target = count fs' import_data_dir"
    by (rule exI [of _ fs']) (intro conjI run t o c)
qed

text \<open>
  \<^bold>\<open>C8\<close>. The storage \<^verbatim>\<open>/r/my storage\<close> holds one trajectory in its data directory,
  the source \<^verbatim>\<open>/r/src\<close> holds two, so the counts differ and both commands run. The
  paths stand unquoted in the command lines: \<^verbatim>\<open>rm -r /r/my storage/data\<close> names
  \<^verbatim>\<open>/r/my\<close> and \<^verbatim>\<open>storage/data\<close>, which do not exist, and
  \<^verbatim>\<open>cp -r /r/src /r/my storage/data\<close> has two sources and a destination that is not a
  directory, so it copies nothing. The target is left as it was and the counts still
  differ, 1 against 2. With the storage \<^verbatim>\<open>/r/storage\<close> and the same directories, the
  target is replaced by the copy and both counts are 2, as for every pair of plain paths
  (\<open>import_data_to_storage_plain\<close>).
\<close>

theorem import_data_to_storage_unquoted_path:
  "map_option
     (\<lambda>fs'. (fs' ''/r/my storage/data'',
             get_numeric_file_count globbed ''/r/my storage/data''
               (listdir fs' ''/r/my storage/data'') TRAJ_EXTENSION,
             get_numeric_file_count globbed ''/r/src'' (listdir fs' ''/r/src'') TRAJ_EXTENSION))
     (import_data_to_storage globbed
        [''/r'' \<mapsto> [], ''/r/my storage'' \<mapsto> [],
         ''/r/my storage/data'' \<mapsto> [(''0.pt'', 1 :: nat)],
         ''/r/src'' \<mapsto> [(''0.pt'', 5), (''1.pt'', 6)]]
        ''/r/my storage'' ''/r/src'')
   = Some (Some [(''0.pt'', 1)], 1, 2) \<and>
   map_option
     (\<lambda>fs'. (fs' ''/r/storage/data'',
             get_numeric_file_count globbed ''/r/storage/data''
               (listdir fs' ''/r/storage/data'') TRAJ_EXTENSION,
             get_numeric_file_count globbed ''/r/src'' (listdir fs' ''/r/src'') TRAJ_EXTENSION))
     (import_data_to_storage globbed
        [''/r'' \<mapsto> [], ''/r/storage'' \<mapsto> [],
         ''/r/storage/data'' \<mapsto> [(''0.pt'', 1 :: nat)],
         ''/r/src'' \<mapsto> [(''0.pt'', 5), (''1.pt'', 6)]]
        ''/r/storage'' ''/r/src'')
   = Some (Some [(''0.pt'', 5), (''1.pt'', 6)], 2, 2)"
  by code_simp

section \<open>Claims about the data manager\<close>

lemma is_randperm_length: "is_randperm perm n \<Longrightarrow> length perm = nat n"
proof -
  assume a: "is_randperm perm n"
  then have d: "distinct perm" and s: "set perm = {0..<n}" by (simp_all add: is_randperm_def)
  from d have "length perm = card (set perm)" by (simp add: distinct_card)
  then show ?thesis unfolding s by simp
qed

lemma selection_of_facts:
  assumes p: "is_randperm perm (N_end - N_begin)" and r: "0 \<le> N_requested"
  shows "selection_of perm N_begin N_requested = take (nat N_requested) (map (\<lambda>k. k + N_begin) perm)"
    and "distinct (selection_of perm N_begin N_requested)"
    and "set (selection_of perm N_begin N_requested) \<subseteq> {N_begin..<N_end}"
    and "int (length (selection_of perm N_begin N_requested)) = min N_requested (max 0 (N_end - N_begin))"
proof -
  let ?shifted = "map (\<lambda>k. k + N_begin) perm"
  show eq: "selection_of perm N_begin N_requested = take (nat N_requested) ?shifted"
    using r by (simp add: selection_of_def py_take_nonneg)
  have d: "distinct ?shifted"
    using p by (simp add: is_randperm_def distinct_map inj_on_def)
  show "distinct (selection_of perm N_begin N_requested)"
    unfolding eq using d by (rule distinct_take)
  have "set ?shifted \<subseteq> {N_begin..<N_end}"
    using p by (auto simp: is_randperm_def)
  then show "set (selection_of perm N_begin N_requested) \<subseteq> {N_begin..<N_end}"
    unfolding eq using set_take_subset [of "nat N_requested" ?shifted] by blast
  show "int (length (selection_of perm N_begin N_requested)) = min N_requested (max 0 (N_end - N_begin))"
    unfolding eq using r is_randperm_length [OF p] by simp
qed

lemma torch_load_present:
  assumes "name \<in> fst ` set dir"
  shows "\<exists>t. torch_load dir name = Inr t \<and> (name, t) \<in> set dir"
proof -
  from assms have "map_of dir name \<noteq> None" by (simp add: map_of_eq_None_iff)
  then obtain t where t: "map_of dir name = Some t" by auto
  then have "(name, t) \<in> set dir" by (rule map_of_SomeD)
  with t show ?thesis by (simp add: torch_load_def)
qed

lemma torch_load_absent:
  "name \<notin> fst ` set dir \<Longrightarrow> torch_load dir name = Inl FileNotFoundError"
  by (simp add: torch_load_def map_of_eq_None_iff [THEN iffD2])

lemma load_all_present:
  assumes "\<forall>i \<in> set selection. trajectory_file i \<in> fst ` set dir"
  shows "\<exists>ts. load_all dir selection = Inr ts \<and> map Inr ts = loads_of dir selection \<and>
           length ts = length selection \<and> set ts \<subseteq> snd ` set dir"
  using assms
proof (induction selection)
  case Nil
  show ?case by (simp add: loads_of_def)
next
  case (Cons i selection)
  from Cons.prems torch_load_present [of "trajectory_file i" dir]
  obtain t where t: "torch_load dir (trajectory_file i) = Inr t" "(trajectory_file i, t) \<in> set dir"
    by auto
  from Cons.IH Cons.prems obtain ts where ts: "load_all dir selection = Inr ts"
    "map Inr ts = loads_of dir selection" "length ts = length selection" "set ts \<subseteq> snd ` set dir"
    by auto
  have "t \<in> snd ` set dir" using t(2) by force
  with t ts show ?case by (simp add: loads_of_def)
qed

lemma get_trajectories_present:
  assumes n: "N_end \<le> n_on_disk m" and r: "0 \<le> N_requested" and b: "N_begin \<le> N_end"
    and p: "is_randperm perm (N_end - N_begin)"
    and files: "\<forall>i \<in> {N_begin..<N_end}. trajectory_file i \<in> fst ` set dir"
  shows "\<exists>ts. get_trajectories dir perm m N_begin N_end N_requested = Inr ts \<and>
           map Inr ts = loads_of dir (selection_of perm N_begin N_requested) \<and>
           int (length ts) = min N_requested (N_end - N_begin) \<and> set ts \<subseteq> snd ` set dir"
proof -
  let ?sel = "selection_of perm N_begin N_requested"
  note sf = selection_of_facts [OF p r]
  have "\<forall>i \<in> set ?sel. trajectory_file i \<in> fst ` set dir"
    using sf(3) files by blast
  from load_all_present [OF this] obtain ts where ts: "load_all dir ?sel = Inr ts"
    "map Inr ts = loads_of dir ?sel" "length ts = length ?sel" "set ts \<subseteq> snd ` set dir"
    by blast
  have "get_trajectories dir perm m N_begin N_end N_requested = Inr ts"
    using n b ts(1) by (simp add: get_trajectories_def randperm_def)
  moreover have "int (length ts) = min N_requested (N_end - N_begin)"
    using ts(3) sf(4) b by simp
  ultimately show ?thesis using ts(2,4) by blast
qed

text \<open>
  \<^bold>\<open>C10\<close>, as amended. Let \<open>0 \<le> N_begin \<le> N_end \<le> n_on_disk\<close> and
  \<open>N_requested \<ge> 0\<close>, let \<open>perm\<close> be the permutation drawn, and let every index of
  \<open>[N_begin, N_end)\<close> have its file in the data directory. Then \<^verbatim>\<open>get_trajectories\<close>
  returns exactly \<open>min N_requested (N_end - N_begin)\<close> trajectories, the ones
  \<^verbatim>\<open>torch.load\<close> gives for the selected indices, which are pairwise distinct and lie
  in \<open>[N_begin, N_end)\<close>; a request above the size of the range is cut to the range
  without an error. For every manager with \<open>n_on_disk < N_end\<close> the call fails its
  assertion.
\<close>

theorem get_trajectories_selection:
  fixes dir :: "'a list directory"
  assumes n: "N_end \<le> n_on_disk m" and r: "0 \<le> N_requested"
    and b: "0 \<le> N_begin" "N_begin \<le> N_end"
    and p: "is_randperm perm (N_end - N_begin)"
    and files: "\<forall>i \<in> {N_begin..<N_end}. trajectory_file i \<in> fst ` set dir"
  shows "(\<exists>ts. get_trajectories dir perm m N_begin N_end N_requested = Inr ts \<and>
           int (length ts) = min N_requested (N_end - N_begin) \<and>
           map Inr ts = loads_of dir (selection_of perm N_begin N_requested)) \<and>
         distinct (selection_of perm N_begin N_requested) \<and>
         set (selection_of perm N_begin N_requested) \<subseteq> {N_begin..<N_end} \<and>
         int (length (selection_of perm N_begin N_requested)) = min N_requested (N_end - N_begin) \<and>
         (\<forall>m' :: 'a SystemDataManager. n_on_disk m' < N_end \<longrightarrow>
            get_trajectories dir perm m' N_begin N_end N_requested = Inl AssertionError)"
proof -
  from get_trajectories_present [OF n r b(2) p files]
  have 1: "\<exists>ts. get_trajectories dir perm m N_begin N_end N_requested = Inr ts \<and>
           int (length ts) = min N_requested (N_end - N_begin) \<and>
           map Inr ts = loads_of dir (selection_of perm N_begin N_requested)" by blast
  note sf = selection_of_facts [OF p r]
  have 4: "int (length (selection_of perm N_begin N_requested)) = min N_requested (N_end - N_begin)"
    using sf(4) b by simp
  have 5: "\<forall>m' :: 'a SystemDataManager. n_on_disk m' < N_end \<longrightarrow>
            get_trajectories dir perm m' N_begin N_end N_requested = Inl AssertionError"
    by (simp add: get_trajectories_def)
  show ?thesis using 1 sf(2,3) 4 5 by blast
qed

text \<open>Three files on disk, the range \<open>[1, 3)\<close> and five trajectories requested: the two
  of the range come back, in the order of the draw.\<close>

theorem get_trajectories_selection_witness:
  "get_trajectories [(''0.pt'', [10 :: nat]), (''1.pt'', [11]), (''2.pt'', [12])] [1, 0]
        \<lparr>config = DataConfig_default\<lparr>import_directory := Some ''corpus''\<rparr>,
         n_on_disk = 3, train_set = None, valid_set = None, test_set = None\<rparr> 1 3 5
     = Inr [[12], [11]] \<and>
   selection_of [1, 0] 1 5 = [2, 1]"
proof -
  define dir :: "nat list directory" where
    "dir = [(''0.pt'', [10]), (''1.pt'', [11]), (''2.pt'', [12])]"
  define m :: "nat SystemDataManager" where
    "m = \<lparr>config = DataConfig_default\<lparr>import_directory := Some ''corpus''\<rparr>,
         n_on_disk = 3, train_set = None, valid_set = None, test_set = None\<rparr>"
  have n: "3 \<le> n_on_disk m" by (simp add: m_def)
  have p: "is_randperm [1, 0] (3 - 1)"
    by (auto simp add: is_randperm_def)
  have names: "trajectory_file 1 = ''1.pt''" "trajectory_file 2 = ''2.pt''"
    by (simp_all add: trajectory_file_def str_int_def str_nat.simps TRAJ_EXTENSION_def)
  have "{1..<3} = {1, 2 :: int}" by auto
  then have files: "\<forall>i \<in> {1..<3}. trajectory_file i \<in> fst ` set dir"
    by (simp add: names dir_def)
  have sel: "selection_of [1, 0] 1 5 = [2, 1]"
    by (simp add: selection_of_def py_take_def py_bound_def)
  from get_trajectories_selection [OF n _ _ _ p files, of 5]
  obtain ts where ts: "get_trajectories dir [1, 0] m 1 3 5 = Inr ts"
    "map Inr ts = loads_of dir (selection_of [1, 0] 1 5)"
    by auto
  have "loads_of dir [2, 1] = [Inr [12], Inr [11]]"
    by (simp add: loads_of_def names torch_load_def dir_def)
  with ts(2) sel have "ts = [[12], [11]]" by auto
  with ts(1) sel show ?thesis unfolding dir_def m_def by simp
qed

text \<open>
  The claim as stated fails on a data directory with gaps. The directory of the
  docstring of \<^verbatim>\<open>get_numeric_file_count\<close>, holding \<^verbatim>\<open>4.pt\<close>, \<^verbatim>\<open>7.pt\<close> and
  \<^verbatim>\<open>11.pt\<close>, counts three trajectories; with \<open>n_on_disk = 3\<close> the call for the range
  \<open>[0, 3)\<close> passes the assertion and then fails to load \<^verbatim>\<open>0.pt\<close>.
\<close>

theorem get_trajectories_selection_counterexample:
  "get_trajectory_count (\<lambda>pattern. 0) ''/results/run''
     [(''4.pt'', [10 :: nat]), (''7.pt'', [11]), (''11.pt'', [12])] = 3 \<and>
   get_trajectories [(''4.pt'', [10 :: nat]), (''7.pt'', [11]), (''11.pt'', [12])] [0, 1, 2]
        \<lparr>config = DataConfig_default\<lparr>storage := ''/results/run'',
                    import_directory := Some ''corpus''\<rparr>,
         n_on_disk = 3, train_set = None, valid_set = None, test_set = None\<rparr> 0 3 3
     = Inl FileNotFoundError"
  by code_simp


lemma add_all_long:
  assumes "\<forall>t \<in> set trajs. t_skip s + t_prediction s \<le> int (length t)"
  shows "\<exists>s' ins outs. add_all s trajs = Inr s' \<and>
           s' = s\<lparr>in_slices := in_slices s @ ins, out_slices := out_slices s @ outs\<rparr>"
  using assms
proof (induction trajs arbitrary: s)
  case Nil
  show ?case by (auto intro!: exI [of _ "[]"])
next
  case (Cons t trajs)
  from Cons.prems have "t_skip s \<le> int (length t) - t_prediction s" by simp
  from add_sliced_trajectory_Inr [OF this] obtain s1 where
    s1: "add_sliced_trajectory s t = Inr s1" by blast
  from add_sliced_trajectory_appends [OF s1] obtain i1 o1 where
    e1: "s1 = s\<lparr>in_slices := in_slices s @ i1, out_slices := out_slices s @ o1\<rparr>" by blast
  have "\<forall>t \<in> set trajs. t_skip s1 + t_prediction s1 \<le> int (length t)"
    using Cons.prems e1 by simp
  from Cons.IH [OF this] obtain s' i2 o2 where
    s': "add_all s1 trajs = Inr s'"
    "s' = s1\<lparr>in_slices := in_slices s1 @ i2, out_slices := out_slices s1 @ o2\<rparr>" by blast
  have "s' = s\<lparr>in_slices := in_slices s @ (i1 @ i2), out_slices := out_slices s @ (o1 @ o2)\<rparr>"
    using s'(2) e1 by simp
  with s1 s'(1) show ?case by (simp del: append_assoc) blast
qed

lemma make_trajectory_set_long:
  assumes "DataConfig.t_skip cfg + 1 \<ge> DataConfig.t_history cfg"
    and "\<forall>t \<in> set trajs. DataConfig.t_skip cfg + DataConfig.t_prediction cfg \<le> int (length t)"
  shows "\<exists>ts. make_trajectory_set cfg trajs = Inr ts \<and> trajectories ts = trajs \<and>
           t_skip (slices ts) = DataConfig.t_skip cfg \<and>
           t_history (slices ts) = DataConfig.t_history cfg \<and>
           t_prediction (slices ts) = DataConfig.t_prediction cfg"
proof -
  let ?e = "\<lparr>t_skip = DataConfig.t_skip cfg, t_history = DataConfig.t_history cfg,
             t_prediction = DataConfig.t_prediction cfg, in_slices = [], out_slices = []\<rparr>
            :: 'a TrajectorySliceDataset"
  have "\<forall>t \<in> set trajs. t_skip ?e + t_prediction ?e \<le> int (length t)"
    using assms(2) by simp
  from add_all_long [OF this] obtain s' ins outs where
    "add_all ?e trajs = Inr s'"
    "s' = ?e\<lparr>in_slices := in_slices ?e @ ins, out_slices := out_slices ?e @ outs\<rparr>" by blast
  then show ?thesis
    using assms(1) by (simp add: make_trajectory_set_def TrajectorySliceDataset_init_def)
qed

lemma extend_set_long:
  assumes "\<forall>t \<in> set trajs. t_skip (slices s) + t_prediction (slices s) \<le> int (length t)"
  shows "\<exists>s' ins outs. extend_set s trajs = Inr s' \<and>
           trajectories s' = trajectories s @ trajs \<and>
           slices s' = (slices s)\<lparr>in_slices := in_slices (slices s) @ ins,
                                  out_slices := out_slices (slices s) @ outs\<rparr>"
proof -
  from add_all_long [OF assms] obtain sl ins outs where
    "add_all (slices s) trajs = Inr sl"
    "sl = (slices s)\<lparr>in_slices := in_slices (slices s) @ ins,
                      out_slices := out_slices (slices s) @ outs\<rparr>" by blast
  then show ?thesis by (simp add: extend_set_def) blast
qed

lemma py_round_nonneg: "0 \<le> x \<Longrightarrow> 0 \<le> py_round x"
  by (simp add: py_round_def Let_def)

lemma pow2_pos: "0 < pow2 k"
  by (simp add: pow2_def)

lemma nearest_double_nonneg:
  assumes "nearest_double x = Some y" and "0 \<le> x"
  shows "0 \<le> y"
proof (cases "x = 0")
  case True
  with assms(1) show ?thesis by (simp add: nearest_double_def)
next
  case False
  define e where "e = max (floor_log2 \<bar>x\<bar> - 52) (- 1074)"
  define r where "r = of_int (py_round (\<bar>x\<bar> / pow2 e)) * pow2 e"
  from False assms(2) have pos: "0 < x" by simp
  have "0 \<le> \<bar>x\<bar> / pow2 e" using pow2_pos [of e] by simp
  then have "0 \<le> py_round (\<bar>x\<bar> / pow2 e)" by (rule py_round_nonneg)
  then have r0: "0 \<le> r" unfolding r_def using pow2_pos [of e] by simp
  from assms(1) False have "y = sgn x * r"
    unfolding nearest_double_def Let_def e_def [symmetric] r_def
    by (simp split: if_splits)
  with pos r0 show ?thesis by simp
qed

lemma round_product_nonneg:
  assumes "round_product n f = Inr k" and "0 \<le> n" and "0 \<le> f"
  shows "0 \<le> k"
proof -
  from assms(1) obtain a where a: "nearest_double (of_int n) = Some a"
    by (auto simp add: round_product_def float_of_int_def split: option.splits sum.splits)
  from assms(1) a obtain f' where f': "nearest_double f = Some f'"
    by (auto simp add: round_product_def float_of_int_def split: option.splits if_splits)
  from assms(1) a f' obtain p where p: "nearest_double (a * f') = Some p" "k = py_round p"
    by (auto simp add: round_product_def float_of_int_def split: option.splits)
  have "0 \<le> a" using a assms(2) by (auto intro: nearest_double_nonneg)
  moreover have "0 \<le> f'" using f' assms(3) by (rule nearest_double_nonneg)
  ultimately have "0 \<le> a * f'" by simp
  with p(1) have "0 \<le> p" by (rule nearest_double_nonneg)
  then show ?thesis unfolding p(2) by (rule py_round_nonneg)
qed

text \<open>
  The calls of \<^verbatim>\<open>round\<close> in the split return for every count a directory can reach and
  every fraction in \<open>[0, 1]\<close>: the products stay far below the largest double.
\<close>

lemma pow2_powi: "pow2 k = 2 powi k"
proof (cases "0 \<le> k")
  case True
  then show ?thesis by (simp add: pow2_def power_int_def)
next
  case False
  have "(1 :: rat) / 2 ^ nat (- k) = inverse 2 ^ nat (- k)"
    by (simp add: power_one_over inverse_eq_divide)
  with False show ?thesis by (simp add: pow2_def power_int_def)
qed

lemma py_round_upper: "of_int (py_round x) \<le> x + 1 / 2"
proof -
  define f where "f = \<lfloor>x\<rfloor>"
  define d where "d = x - of_int f"
  have x: "x = of_int f + d" by (simp add: d_def)
  have d0: "0 \<le> d" "d < 1" unfolding d_def f_def by linarith+
  have "py_round x = (if d < 1 / 2 then f else if d > 1 / 2 then f + 1 else if even f then f else f + 1)"
    by (simp add: py_round_def Let_def f_def d_def)
  then show ?thesis using d0 unfolding x by (auto split: if_splits)
qed

lemma floor_log2_lower:
  assumes "0 < x"
  shows "pow2 (floor_log2 x) \<le> x"
proof -
  obtain p q where pq: "quotient_of x = (p, q)" by (cases "quotient_of x")
  then have q: "0 < q" by (rule quotient_of_denom_pos)
  from pq have x: "x = of_int p / of_int q" by (rule quotient_of_div)
  with assms q have p: "0 < p" by (simp add: zero_less_divide_iff)
  define k where "k = bitlen p - bitlen q"
  have fl: "floor_log2 x = (if pow2 k \<le> x then k else k - 1)"
    by (simp add: floor_log2_def pq k_def Let_def)
  show ?thesis
  proof (cases "pow2 k \<le> x")
    case True
    with fl show ?thesis by simp
  next
    case False
    from bitlen_bounds [OF p] have lo: "2 ^ nat (bitlen p - 1) \<le> p" by simp
    from bitlen_bounds [OF q] have hi: "q < 2 ^ nat (bitlen q)" by simp
    have bp: "1 \<le> bitlen p" using p by (simp add: bitlen_alt_def)
    have bq: "0 \<le> bitlen q" by (rule bitlen_nonneg)
    have lo': "(2 :: rat) powi (bitlen p - 1) \<le> of_int p"
    proof -
      have "(2 :: rat) powi (bitlen p - 1) = 2 ^ nat (bitlen p - 1)"
        using bp by (simp add: power_int_def)
      also have "\<dots> = of_int (2 ^ nat (bitlen p - 1))" by simp
      also have "\<dots> \<le> of_int p" using lo by (simp only: of_int_le_iff)
      finally show ?thesis .
    qed
    have hi': "of_int q \<le> (2 :: rat) powi (bitlen q)"
    proof -
      from hi have "q \<le> 2 ^ nat (bitlen q)" by simp
      then have "(of_int q :: rat) \<le> of_int (2 ^ nat (bitlen q))" by (simp only: of_int_le_iff)
      also have "\<dots> = 2 powi (bitlen q)" using bq by (simp add: power_int_def)
      finally show ?thesis .
    qed
    have "pow2 (k - 1) = 2 powi (bitlen p - 1) / 2 powi (bitlen q)"
      unfolding pow2_powi k_def
      using power_int_diff [of "2 :: rat" "bitlen p - 1" "bitlen q"] by (simp add: algebra_simps)
    also have "\<dots> \<le> of_int p / of_int q"
      using lo' hi' q p by (intro frac_le) simp_all
    finally have "pow2 (k - 1) \<le> x" unfolding x .
    with False fl show ?thesis by simp
  qed
qed

lemma pow2_mono: "a \<le> b \<Longrightarrow> pow2 a \<le> pow2 b"
  unfolding pow2_powi by (rule power_int_increasing) simp_all

lemma floor_log2_upper:
  assumes "0 < x" and "x < pow2 K"
  shows "floor_log2 x < K"
proof (rule ccontr)
  assume "\<not> floor_log2 x < K"
  then have "pow2 K \<le> pow2 (floor_log2 x)" by (intro pow2_mono) simp
  also have "\<dots> \<le> x" using assms(1) by (rule floor_log2_lower)
  finally show False using assms(2) by simp
qed

lemma nearest_double_finite:
  assumes "0 \<le> x" and "x < pow2 1000"
  shows "\<exists>y. nearest_double x = Some y \<and> 0 \<le> y \<and> y \<le> 2 * x + 1"
proof (cases "x = 0")
  case True
  then show ?thesis by (simp add: nearest_double_def)
next
  case False
  with assms(1) have pos: "0 < x" by simp
  define e where "e = max (floor_log2 \<bar>x\<bar> - 52) (- 1074)"
  define m where "m = py_round (\<bar>x\<bar> / pow2 e)"
  have ax: "\<bar>x\<bar> = x" using pos by simp
  have fl: "floor_log2 x < 1000" using pos assms(2) by (rule floor_log2_upper)
  then have e: "e < 971" by (simp add: e_def ax)
  have nd: "nearest_double x = Some (of_int m * pow2 e)"
    using False e pos unfolding nearest_double_def Let_def e_def [symmetric] m_def [symmetric]
    by simp
  have "0 \<le> \<bar>x\<bar> / pow2 e" using pow2_pos [of e] by simp
  then have m0: "0 \<le> m" unfolding m_def by (rule py_round_nonneg)
  have y0: "0 \<le> of_int m * pow2 e" using m0 pow2_pos [of e] by simp
  have "of_int m \<le> x / pow2 e + 1 / 2" unfolding m_def ax by (rule py_round_upper)
  then have "of_int m * pow2 e \<le> (x / pow2 e + 1 / 2) * pow2 e"
    using pow2_pos [of e] by (simp only: mult_le_cancel_right_pos)
  also have "\<dots> = x + pow2 e / 2" using pow2_pos [of e] by (simp add: algebra_simps)
  finally have up: "of_int m * pow2 e \<le> x + pow2 e / 2" .
  have "pow2 e \<le> 2 * x + 2"
  proof (cases "floor_log2 x - 52 \<le> - 1074")
    case True
    then have "e = - 1074" by (simp add: e_def ax)
    then have "pow2 e \<le> pow2 0" by (intro pow2_mono) simp
    also have "\<dots> = 1" by (simp add: pow2_def)
    finally show ?thesis using pos by simp
  next
    case False
    then have "e = floor_log2 x - 52" by (simp add: e_def ax)
    then have "pow2 e \<le> pow2 (floor_log2 x)" by (intro pow2_mono) simp
    also have "\<dots> \<le> x" using pos by (rule floor_log2_lower)
    finally show ?thesis using pos by simp
  qed
  with up have "of_int m * pow2 e \<le> 2 * x + 1" by simp
  with nd y0 show ?thesis by simp
qed

lemma round_product_total:
  assumes "0 \<le> n" and "n < 2 ^ 64" and "0 \<le> f" and "f \<le> 1"
  shows "\<exists>k. round_product n f = Inr k \<and> 0 \<le> k"
proof -
  have "pow2 67 \<le> pow2 1000" by (rule pow2_mono) simp
  moreover have "pow2 67 = 2 ^ 67" by (simp add: pow2_def)
  ultimately have big: "(2 :: rat) ^ 67 \<le> pow2 1000" by simp
  have s1: "(2 :: rat) ^ 64 < 2 ^ 67" by (rule power_strict_increasing) simp_all
  have s2: "(1 :: rat) < 2 ^ 67" by (rule one_less_power) simp_all
  have s3: "(2 * 2 ^ 64 + 1) * (3 :: rat) < 2 ^ 67" by simp
  have p64: "(2 :: rat) ^ 64 < pow2 1000" "(1 :: rat) < pow2 1000"
    "(2 * 2 ^ 64 + 1) * (3 :: rat) < pow2 1000"
    by (rule less_le_trans [OF s1 big], rule less_le_trans [OF s2 big],
        rule less_le_trans [OF s3 big])
  have "(of_int n :: rat) < of_int (2 ^ 64)" using assms(2) by (simp only: of_int_less_iff)
  then have n64: "(of_int n :: rat) < 2 ^ 64" by simp
  have n0: "(0 :: rat) \<le> of_int n" using assms(1) by simp
  note n' = n0 n64
  from nearest_double_finite [OF n'(1)] n'(2) p64(1) obtain a where
    a: "nearest_double (of_int n) = Some a" "0 \<le> a" "a \<le> 2 * of_int n + 1"
    by force
  from nearest_double_finite [OF assms(3)] assms(4) p64(2) obtain f' where
    f': "nearest_double f = Some f'" "0 \<le> f'" "f' \<le> 2 * f + 1"
    by force
  have f3: "f' \<le> 3" using f'(3) assms(4) by simp
  have a2: "a \<le> 2 * 2 ^ 64 + 1" using a(3) n'(2) by simp
  have "a * f' \<le> (2 * 2 ^ 64 + 1) * 3"
    using a2 f3 a(2) f'(2) by (intro mult_mono) simp_all
  then have lt: "a * f' < pow2 1000" using p64(3) by simp
  have "0 \<le> a * f'" using a(2) f'(2) by simp
  from nearest_double_finite [OF this lt] obtain p where
    p: "nearest_double (a * f') = Some p" "0 \<le> p" by blast
  have "round_product n f = Inr (py_round p)"
    by (simp add: round_product_def float_of_int_def a(1) f'(1) p(1))
  moreover have "0 \<le> py_round p" using p(2) by (rule py_round_nonneg)
  ultimately show ?thesis by blast
qed

lemma split_counts_Inr:
  assumes "round_product n (train_fraction cfg) = Inr a"
    and "round_product n (valid_fraction cfg) = Inr b"
    and "round_product n (test_fraction cfg) = Inr c"
  shows "split_counts n cfg = Inr (a, b, c)"
  using assms by (simp add: split_counts_def)

text \<open>Loading a selection all of whose files are there, each with a property \<open>P\<close>.\<close>

lemma load_all_loaded:
  assumes "\<forall>i \<in> set selection. \<exists>t. torch_load dir (trajectory_file i) = Inr t \<and> P t"
  shows "\<exists>ts. load_all dir selection = Inr ts \<and> map Inr ts = loads_of dir selection \<and>
           length ts = length selection \<and> (\<forall>t \<in> set ts. P t)"
  using assms
proof (induction selection)
  case Nil
  show ?case by (simp add: loads_of_def)
next
  case (Cons i selection)
  from Cons.prems obtain t where t: "torch_load dir (trajectory_file i) = Inr t" "P t"
    by auto
  from Cons.IH Cons.prems obtain ts where ts: "load_all dir selection = Inr ts"
    "map Inr ts = loads_of dir selection" "length ts = length selection" "\<forall>t \<in> set ts. P t"
    by auto
  with t show ?case by (simp add: loads_of_def)
qed

lemma get_trajectories_loaded:
  assumes n: "N_end \<le> n_on_disk m" and r: "0 \<le> N_requested" and b: "N_begin \<le> N_end"
    and p: "is_randperm perm (N_end - N_begin)"
    and files: "\<forall>i \<in> {N_begin..<N_end}. \<exists>t. torch_load dir (trajectory_file i) = Inr t \<and> P t"
  shows "\<exists>ts. get_trajectories dir perm m N_begin N_end N_requested = Inr ts \<and>
           map Inr ts = loads_of dir (selection_of perm N_begin N_requested) \<and>
           int (length ts) = min N_requested (N_end - N_begin) \<and> (\<forall>t \<in> set ts. P t)"
proof -
  let ?sel = "selection_of perm N_begin N_requested"
  note sf = selection_of_facts [OF p r]
  have "\<forall>i \<in> set ?sel. \<exists>t. torch_load dir (trajectory_file i) = Inr t \<and> P t"
    using sf(3) files by blast
  from load_all_loaded [OF this] obtain ts where ts: "load_all dir ?sel = Inr ts"
    "map Inr ts = loads_of dir ?sel" "length ts = length ?sel" "\<forall>t \<in> set ts. P t"
    by blast
  have "get_trajectories dir perm m N_begin N_end N_requested = Inr ts"
    using n b ts(1) by (simp add: get_trajectories_def randperm_def)
  moreover have "int (length ts) = min N_requested (N_end - N_begin)"
    using ts(3) sf(4) b by simp
  ultimately show ?thesis using ts(2,4) by blast
qed

lemma initial_split_blocks:
  fixes m :: "'a SystemDataManager" and dir :: "'a list directory" and perm :: "int list"
  defines "cfg \<equiv> config m" and "N \<equiv> n_on_disk m"
  assumes fresh: "train_set m = None"
    and N0: "0 \<le> N"
    and fr: "0 \<le> train_fraction cfg" "0 \<le> valid_fraction cfg" "0 \<le> test_fraction cfg"
    and rt: "round_product N (train_fraction cfg) = Inr N_train"
    and rv: "round_product N (valid_fraction cfg) = Inr N_valid"
    and re: "round_product N (test_fraction cfg) = Inr R_test"
    and clamp: "N_test = min R_test (N - N_train - N_valid)"
    and total: "N_tot = N_train + N_test + N_valid"
    and tot0: "0 \<le> N_tot"
    and p: "is_randperm perm N"
    and files: "\<forall>i \<in> {0..<N}. \<exists>t. torch_load dir (trajectory_file i) = Inr t \<and>
        DataConfig.t_skip cfg + DataConfig.t_prediction cfg \<le> int (length t)"
    and win: "DataConfig.t_skip cfg + 1 \<ge> DataConfig.t_history cfg"
  shows "\<exists>ts tr va te.
      get_trajectory_split globbed dir perm m
        = Inr (m\<lparr>train_set := Some tr, valid_set := Some va, test_set := Some te\<rparr>) \<and>
      map Inr ts = loads_of dir (selection_of perm 0 N_tot) \<and>
      int (length ts) = min N_tot N \<and>
      trajectories tr = take (nat N_train) ts \<and>
      trajectories va = take (nat N_valid) (drop (nat N_train) ts) \<and>
      trajectories te = drop (nat N_valid) (drop (nat N_train) ts) \<and>
      (\<forall>s \<in> {tr, va, te}. t_skip (slices s) = DataConfig.t_skip cfg \<and>
          t_history (slices s) = DataConfig.t_history cfg \<and>
          t_prediction (slices s) = DataConfig.t_prediction cfg)"
proof -
  have tr0: "0 \<le> N_train" using rt N0 fr(1) by (rule round_product_nonneg)
  have va0: "0 \<le> N_valid" using rv N0 fr(2) by (rule round_product_nonneg)
  have counts: "split_counts (n_on_disk m) (config m) = Inr (N_train, N_valid, R_test)"
    using split_counts_Inr [OF rt rv re] by (simp add: N_def cfg_def)
  have p': "is_randperm perm (N - 0)" using p by simp
  have n: "N \<le> n_on_disk m" by (simp add: N_def)
  have files': "\<forall>i \<in> {0..<N}. \<exists>t. torch_load dir (trajectory_file i) = Inr t \<and>
        (\<lambda>t. DataConfig.t_skip cfg + DataConfig.t_prediction cfg \<le> int (length t)) t"
    using files by simp
  from get_trajectories_loaded [OF n tot0 N0 p' files'] obtain ts where
    ts: "get_trajectories dir perm m 0 N N_tot = Inr ts"
      "map Inr ts = loads_of dir (selection_of perm 0 N_tot)"
      "int (length ts) = min N_tot N"
      "\<forall>t \<in> set ts. DataConfig.t_skip cfg + DataConfig.t_prediction cfg \<le> int (length t)"
    by auto
  let ?train = "take (nat N_train) ts"
  let ?valid = "take (nat N_valid) (drop (nat N_train) ts)"
  let ?test = "drop (nat N_valid) (drop (nat N_train) ts)"
  have sub: "set ?train \<subseteq> set ts" "set ?valid \<subseteq> set ts" "set ?test \<subseteq> set ts"
    by (auto dest: in_set_takeD in_set_dropD)
  have l: "\<forall>t \<in> set ?train. DataConfig.t_skip cfg + DataConfig.t_prediction cfg \<le> int (length t)"
    "\<forall>t \<in> set ?valid. DataConfig.t_skip cfg + DataConfig.t_prediction cfg \<le> int (length t)"
    "\<forall>t \<in> set ?test. DataConfig.t_skip cfg + DataConfig.t_prediction cfg \<le> int (length t)"
    using sub ts(4) by blast+
  from make_trajectory_set_long [OF win l(1)] obtain tr where
    tr: "make_trajectory_set cfg ?train = Inr tr" "trajectories tr = ?train"
      "t_skip (slices tr) = DataConfig.t_skip cfg" "t_history (slices tr) = DataConfig.t_history cfg"
      "t_prediction (slices tr) = DataConfig.t_prediction cfg" by blast
  from make_trajectory_set_long [OF win l(2)] obtain va where
    va: "make_trajectory_set cfg ?valid = Inr va" "trajectories va = ?valid"
      "t_skip (slices va) = DataConfig.t_skip cfg" "t_history (slices va) = DataConfig.t_history cfg"
      "t_prediction (slices va) = DataConfig.t_prediction cfg" by blast
  from make_trajectory_set_long [OF win l(3)] obtain te where
    te: "make_trajectory_set cfg ?test = Inr te" "trajectories te = ?test"
      "t_skip (slices te) = DataConfig.t_skip cfg" "t_history (slices te) = DataConfig.t_history cfg"
      "t_prediction (slices te) = DataConfig.t_prediction cfg" by blast
  have blocks: "py_take N_train ts = ?train" "py_take N_valid (py_drop N_train ts) = ?valid"
    "py_drop N_valid (py_drop N_train ts) = ?test"
    using tr0 va0 by (simp_all add: py_take_nonneg py_drop_nonneg)
  have "get_trajectory_split globbed dir perm m
        = Inr (m\<lparr>train_set := Some tr, valid_set := Some va, test_set := Some te\<rparr>)"
    unfolding get_trajectory_split_def Let_def
    using fresh counts ts(1) tr(1) va(1) te(1) blocks
    unfolding total clamp N_def cfg_def
    by simp
  then show ?thesis
    using ts(2,3) tr(2-) va(2-) te(2-) by blast
qed

lemma loads_of_take: "map Inr ts = loads_of dir sel \<Longrightarrow> map Inr (take k ts) = loads_of dir (take k sel)"
  by (simp add: loads_of_def take_map [symmetric])

lemma loads_of_drop: "map Inr ts = loads_of dir sel \<Longrightarrow> map Inr (drop k ts) = loads_of dir (drop k sel)"
  by (simp add: loads_of_def drop_map [symmetric])

lemma blocks_cat: "take a sel @ take b (drop a sel) @ drop b (drop a sel) = sel"
  by (simp only: append_take_drop_id)

lemma distinct_blocks:
  assumes "distinct sel"
  shows "set (take a sel) \<inter> set (take b (drop a sel)) = {}"
    and "set (take a sel) \<inter> set (drop b (drop a sel)) = {}"
    and "set (take b (drop a sel)) \<inter> set (drop b (drop a sel)) = {}"
    and "card (set (take a sel) \<union> set (take b (drop a sel)) \<union> set (drop b (drop a sel)))
           = length sel"
proof -
  have split: "take a sel @ take b (drop a sel) @ drop b (drop a sel) = sel" by (rule blocks_cat)
  with assms have d: "distinct (take a sel @ take b (drop a sel) @ drop b (drop a sel))" by simp
  from d show "set (take a sel) \<inter> set (take b (drop a sel)) = {}"
    and "set (take a sel) \<inter> set (drop b (drop a sel)) = {}"
    and "set (take b (drop a sel)) \<inter> set (drop b (drop a sel)) = {}"
    unfolding distinct_append by auto
  have "set (take a sel) \<union> set (take b (drop a sel)) \<union> set (drop b (drop a sel)) = set sel"
    by (subst (4) split [symmetric]) (simp only: set_append Un_assoc)
  then show "card (set (take a sel) \<union> set (take b (drop a sel)) \<union> set (drop b (drop a sel)))
           = length sel"
    using assms by (simp add: distinct_card)
qed

lemma round_product_half_100: "round_product 100 (1 / 2) = Inr 50"
  by code_simp

lemma round_product_quarter_100: "round_product 100 (1 / 4) = Inr 25"
  by code_simp

text \<open>
  \<^bold>\<open>C1\<close>, as amended. Let the manager have no split yet and \<open>N \<ge> 0\<close> be its on-disk
  count, let the three fractions be non-negative, and let the three calls of
  \<^verbatim>\<open>round\<close> return: \<open>N_train = round (N * train_fraction)\<close>,
  \<open>N_valid = round (N * valid_fraction)\<close> and
  \<open>N_test = min (round (N * test_fraction)) (N - N_train - N_valid)\<close>, the products being
  the floating-point ones. Suppose \<open>N_train + N_valid \<le> N\<close>, and let each of the files
  \<open>0, ..., N - 1\<close> load from the data directory as a trajectory long enough for the
  windows of the configuration. Then for every permutation \<open>perm\<close> of \<open>[0, N)\<close> the split
  succeeds; it takes the first \<open>N_train + N_valid + N_test\<close> entries of \<open>perm\<close> and cuts
  them, in order, into a train, a valid and a test block of exactly these sizes, whose
  trajectories are the three sets; the blocks are pairwise disjoint and their union has
  \<open>N_train + N_valid + N_test\<close> indices. For \<open>N = 100\<close> and fractions
  \<open>(0.5, 0.25, 0.25)\<close> the sizes are 50, 25 and 25.
\<close>

theorem initial_split_partition:
  fixes m :: "'a SystemDataManager" and dir :: "'a list directory" and perm :: "int list"
    and N_train N_valid N_test R_test :: int
  defines "cfg \<equiv> config m" and "N \<equiv> n_on_disk m"
  defines "sel \<equiv> take (nat (N_train + N_valid + N_test)) perm"
  defines "train_idx \<equiv> take (nat N_train) sel"
  defines "valid_idx \<equiv> take (nat N_valid) (drop (nat N_train) sel)"
  defines "test_idx \<equiv> drop (nat N_valid) (drop (nat N_train) sel)"
  assumes fresh: "train_set m = None"
    and N0: "0 \<le> N"
    and fr: "0 \<le> train_fraction cfg" "0 \<le> valid_fraction cfg" "0 \<le> test_fraction cfg"
    and rt: "round_product N (train_fraction cfg) = Inr N_train"
    and rv: "round_product N (valid_fraction cfg) = Inr N_valid"
    and re: "round_product N (test_fraction cfg) = Inr R_test"
    and clamp: "N_test = min R_test (N - N_train - N_valid)"
    and fit: "N_train + N_valid \<le> N"
    and p: "is_randperm perm N"
    and files: "\<forall>i \<in> {0..<N}. \<exists>t. torch_load dir (trajectory_file i) = Inr t \<and>
        DataConfig.t_skip cfg + DataConfig.t_prediction cfg \<le> int (length t)"
    and win: "DataConfig.t_skip cfg + 1 \<ge> DataConfig.t_history cfg"
  shows "(\<exists>m' tr va te.
      get_trajectory_split globbed dir perm m = Inr m' \<and>
      train_set m' = Some tr \<and> valid_set m' = Some va \<and> test_set m' = Some te \<and>
      map Inr (trajectories tr) = loads_of dir train_idx \<and>
      map Inr (trajectories va) = loads_of dir valid_idx \<and>
      map Inr (trajectories te) = loads_of dir test_idx \<and>
      int (length (trajectories tr)) = N_train \<and>
      int (length (trajectories va)) = N_valid \<and>
      int (length (trajectories te)) = N_test) \<and>
    distinct sel \<and> set sel \<subseteq> {0..<N} \<and> train_idx @ valid_idx @ test_idx = sel \<and>
    int (length train_idx) = N_train \<and> int (length valid_idx) = N_valid \<and>
    int (length test_idx) = N_test \<and>
    set train_idx \<inter> set valid_idx = {} \<and> set train_idx \<inter> set test_idx = {} \<and>
    set valid_idx \<inter> set test_idx = {} \<and>
    int (card (set train_idx \<union> set valid_idx \<union> set test_idx)) = N_train + N_valid + N_test \<and>
    (N = 100 \<and> train_fraction cfg = 1 / 2 \<and> valid_fraction cfg = 1 / 4 \<and>
     test_fraction cfg = 1 / 4 \<longrightarrow> N_train = 50 \<and> N_valid = 25 \<and> N_test = 25)"
proof -
  define N_tot where "N_tot = N_train + N_test + N_valid"
  have tr0: "0 \<le> N_train" using rt N0 fr(1) by (rule round_product_nonneg)
  have va0: "0 \<le> N_valid" using rv N0 fr(2) by (rule round_product_nonneg)
  have re0: "0 \<le> R_test" using re N0 fr(3) by (rule round_product_nonneg)
  have te0: "0 \<le> N_test" unfolding clamp using re0 fit by simp
  have totN: "N_tot \<le> N" unfolding N_tot_def clamp by simp
  have tot0: "0 \<le> N_tot" unfolding N_tot_def using tr0 va0 te0 by simp
  have tot: "N_train + N_valid + N_test = N_tot" by (simp add: N_tot_def)
  have p': "is_randperm perm (N - 0)" using p by simp
  note sf = selection_of_facts [OF p' tot0]
  have sel: "selection_of perm 0 N_tot = sel" using sf(1) by (simp add: sel_def tot)
  have dsel: "distinct sel" and ssel: "set sel \<subseteq> {0..<N}"
    and lsel: "int (length sel) = N_tot"
    using sf(2,3,4) totN N0 unfolding sel by simp_all
  from initial_split_blocks [where globbed = globbed, OF fresh N0 [unfolded N_def]
      fr [unfolded cfg_def] rt [unfolded N_def cfg_def] rv [unfolded N_def cfg_def]
      re [unfolded N_def cfg_def] clamp [unfolded N_def] N_tot_def tot0 p [unfolded N_def]
      files [unfolded N_def cfg_def] win [unfolded cfg_def]]
  obtain ts tr va te where r:
    "get_trajectory_split globbed dir perm m
        = Inr (m\<lparr>train_set := Some tr, valid_set := Some va, test_set := Some te\<rparr>)"
    "map Inr ts = loads_of dir (selection_of perm 0 N_tot)"
    "int (length ts) = min N_tot N"
    "trajectories tr = take (nat N_train) ts"
    "trajectories va = take (nat N_valid) (drop (nat N_train) ts)"
    "trajectories te = drop (nat N_valid) (drop (nat N_train) ts)"
    unfolding N_def cfg_def by blast
  have lts: "int (length ts) = N_tot" using r(3) totN by simp
  have ld: "map Inr ts = loads_of dir sel" using r(2) sel by simp
  have 1: "map Inr (trajectories tr) = loads_of dir train_idx"
    unfolding r(4) train_idx_def by (rule loads_of_take [OF ld])
  have 2: "map Inr (trajectories va) = loads_of dir valid_idx"
    unfolding r(5) valid_idx_def by (rule loads_of_take [OF loads_of_drop [OF ld]])
  have 3: "map Inr (trajectories te) = loads_of dir test_idx"
    unfolding r(6) test_idx_def by (rule loads_of_drop [OF loads_of_drop [OF ld]])
  have len: "int (length (trajectories tr)) = N_train" "int (length (trajectories va)) = N_valid"
    "int (length (trajectories te)) = N_test"
    unfolding r(4,5,6) using lts tr0 va0 te0 tot by simp_all
  have leni: "int (length train_idx) = N_train" "int (length valid_idx) = N_valid"
    "int (length test_idx) = N_test"
    unfolding train_idx_def valid_idx_def test_idx_def using lsel tr0 va0 te0 tot by simp_all
  have cat: "train_idx @ valid_idx @ test_idx = sel"
    unfolding train_idx_def valid_idx_def test_idx_def by (rule blocks_cat)
  note db = distinct_blocks [OF dsel, where a = "nat N_train" and b = "nat N_valid",
      folded train_idx_def valid_idx_def test_idx_def]
  have card: "int (card (set train_idx \<union> set valid_idx \<union> set test_idx)) = N_train + N_valid + N_test"
    using db(4) lsel tot by simp
  have inst: "N = 100 \<and> train_fraction cfg = 1 / 2 \<and> valid_fraction cfg = 1 / 4 \<and>
     test_fraction cfg = 1 / 4 \<longrightarrow> N_train = 50 \<and> N_valid = 25 \<and> N_test = 25"
  proof (intro impI, elim conjE)
    assume a: "N = 100" "train_fraction cfg = 1 / 2" "valid_fraction cfg = 1 / 4"
      "test_fraction cfg = 1 / 4"
    have t: "N_train = 50" using rt unfolding a round_product_half_100 by simp
    have v: "N_valid = 25" using rv unfolding a round_product_quarter_100 by simp
    have e: "R_test = 25" using re unfolding a round_product_quarter_100 by simp
    have "N_test = min 25 (100 - 50 - 25)"
      unfolding clamp t v e a(1) ..
    then have "N_test = 25" by simp
    with t v show "N_train = 50 \<and> N_valid = 25 \<and> N_test = 25" by simp
  qed
  have ex: "\<exists>m' tr va te.
      get_trajectory_split globbed dir perm m = Inr m' \<and>
      train_set m' = Some tr \<and> valid_set m' = Some va \<and> test_set m' = Some te \<and>
      map Inr (trajectories tr) = loads_of dir train_idx \<and>
      map Inr (trajectories va) = loads_of dir valid_idx \<and>
      map Inr (trajectories te) = loads_of dir test_idx \<and>
      int (length (trajectories tr)) = N_train \<and>
      int (length (trajectories va)) = N_valid \<and>
      int (length (trajectories te)) = N_test"
  proof -
    define m' where "m' = m\<lparr>train_set := Some tr, valid_set := Some va, test_set := Some te\<rparr>"
    have a: "get_trajectory_split globbed dir perm m = Inr m'" unfolding m'_def by (rule r(1))
    have b: "train_set m' = Some tr" "valid_set m' = Some va" "test_set m' = Some te"
      by (simp_all add: m'_def)
    show ?thesis
      by (rule exI [of _ m'], rule exI [of _ tr], rule exI [of _ va], rule exI [of _ te])
        (intro conjI a b 1 2 3 len)
  qed
  show ?thesis
    by (intro conjI ex dsel ssel cat leni db(1) db(2) db(3) card inst)
qed

text \<open>Four files, the default fractions and the draw \<open>2, 0, 3, 1\<close>: train gets the files
  2 and 0, valid the file 3 and test the file 1.\<close>

theorem initial_split_partition_witness:
  "\<exists>m' tr va te.
     get_trajectory_split (\<lambda>pattern. 0)
        [(''0.pt'', [10 :: nat]), (''1.pt'', [11]), (''2.pt'', [12]), (''3.pt'', [13])]
        [2, 0, 3, 1]
        \<lparr>config = DataConfig_default\<lparr>storage := ''/results/run'',
                    import_directory := Some ''/results/corpus''\<rparr>,
         n_on_disk = 4, train_set = None, valid_set = None, test_set = None\<rparr> = Inr m' \<and>
     train_set m' = Some tr \<and> valid_set m' = Some va \<and> test_set m' = Some te \<and>
     trajectories tr = [[12], [10]] \<and> trajectories va = [[13]] \<and> trajectories te = [[11]]"
proof -
  define dir :: "nat list directory" where
    "dir = [(''0.pt'', [10]), (''1.pt'', [11]), (''2.pt'', [12]), (''3.pt'', [13])]"
  define m :: "nat SystemDataManager" where
    "m = \<lparr>config = DataConfig_default\<lparr>storage := ''/results/run'',
                    import_directory := Some ''/results/corpus''\<rparr>,
         n_on_disk = 4, train_set = None, valid_set = None, test_set = None\<rparr>"
  have cfg: "train_fraction (config m) = 1 / 2" "valid_fraction (config m) = 1 / 4"
    "test_fraction (config m) = 1 / 4" "DataConfig.t_skip (config m) = 0"
    "DataConfig.t_history (config m) = 1" "DataConfig.t_prediction (config m) = 1"
    "n_on_disk m = 4" "train_set m = None"
    by (simp_all add: m_def DataConfig_default_def)
  have r2: "round_product 4 (1 / 2) = Inr 2" by code_simp
  have r1: "round_product 4 (1 / 4) = Inr 1" by code_simp
  have rt: "round_product (n_on_disk m) (train_fraction (config m)) = Inr 2"
    unfolding cfg by (rule r2)
  have rv: "round_product (n_on_disk m) (valid_fraction (config m)) = Inr 1"
    unfolding cfg by (rule r1)
  have re: "round_product (n_on_disk m) (test_fraction (config m)) = Inr 1"
    unfolding cfg by (rule r1)
  have clamp: "(1 :: int) = min 1 (n_on_disk m - 2 - 1)" by (simp add: cfg)
  have names: "trajectory_file 0 = ''0.pt''" "trajectory_file 1 = ''1.pt''"
    "trajectory_file 2 = ''2.pt''" "trajectory_file 3 = ''3.pt''"
    by (simp_all add: trajectory_file_def str_int_def str_nat.simps TRAJ_EXTENSION_def)
  have "{0..<4} = {0, 1, 2, 3 :: int}" by auto
  then have files: "\<forall>i \<in> {0..<n_on_disk m}. \<exists>t. torch_load dir (trajectory_file i) = Inr t \<and>
      DataConfig.t_skip (config m) + DataConfig.t_prediction (config m) \<le> int (length t)"
    by (simp add: names dir_def cfg torch_load_def)
  have p: "is_randperm [2, 0, 3, 1] (n_on_disk m)"
    unfolding cfg by (auto simp add: is_randperm_def)
  have fit: "(2 :: int) + 1 \<le> n_on_disk m" by (simp add: cfg)
  from initial_split_partition [where globbed = "\<lambda>pattern. 0", OF cfg(8) _ _ _ _ rt rv re clamp
      fit p files]
  obtain m' tr va te where res:
    "get_trajectory_split (\<lambda>pattern. 0) dir [2, 0, 3, 1] m = Inr m'"
    "train_set m' = Some tr" "valid_set m' = Some va" "test_set m' = Some te"
    "map Inr (trajectories tr) = loads_of dir (take 2 (take 4 [2, 0, 3, 1]))"
    "map Inr (trajectories va) = loads_of dir (take 1 (drop 2 (take 4 [2, 0, 3, 1])))"
    "map Inr (trajectories te) = loads_of dir (drop 1 (drop 2 (take 4 [2, 0, 3, 1])))"
    by (auto simp add: cfg)
  have l: "loads_of dir [2, 0] = [Inr [12], Inr [10]]" "loads_of dir [3] = [Inr [13]]"
    "loads_of dir [1] = [Inr [11]]"
    by (simp_all add: loads_of_def names torch_load_def dir_def)
  from res(5) l(1) have 1: "trajectories tr = [[12], [10]]" by auto
  from res(6) l(2) have 2: "trajectories va = [[13]]" by auto
  from res(7) l(3) have 3: "trajectories te = [[11]]" by auto
  show ?thesis
    using res(1-4) 1 2 3 unfolding dir_def m_def by blast
qed

text \<open>
  The claim as stated fails for \<open>N = 3\<close> and the fractions \<open>(0.5, 0.5, 0)\<close>, both in
  \<open>[0, 1]\<close>: \<open>N_train = N_valid = round 1.5 = 2\<close> and \<open>N_test = min 0 (3 - 2 - 2) = -1\<close>,
  but the blocks hold 2, 1 and 0 trajectories.
\<close>

theorem initial_split_partition_counterexample:
  "round_product 3 (1 / 2) = Inr 2 \<and> round_product 3 0 = Inr 0 \<and>
   map_sum id (\<lambda>m'. (map_option trajectories (train_set m'),
                      map_option trajectories (valid_set m'),
                      map_option trajectories (test_set m')))
     (get_trajectory_split (\<lambda>pattern. 0)
        [(''0.pt'', [10 :: nat]), (''1.pt'', [11]), (''2.pt'', [12])] [0, 1, 2]
        \<lparr>config = DataConfig_default\<lparr>storage := ''/results/run'', train_fraction := 1 / 2,
                    valid_fraction := 1 / 2, test_fraction := 0,
                    import_directory := Some ''/results/corpus''\<rparr>,
         n_on_disk = 3, train_set = None, valid_set = None, test_set = None\<rparr>)
   = Inr (Some [[10], [11]], Some [[12]], Some [])"
  by code_simp

text \<open>
  The growth branch of \<^verbatim>\<open>get_trajectory_split\<close>: what the call returns when the split
  exists, the threshold is truthy and the count on disk has grown. The old entries of the
  three sets stay where they are, the new ones are appended.
\<close>

lemma growth_blocks:
  fixes m :: "'a SystemDataManager" and dir :: "'a list directory" and perm :: "int list"
    and globbed :: "string \<Rightarrow> nat"
  defines "cfg \<equiv> config m" and "n \<equiv> n_on_disk m"
  defines "n_new \<equiv> get_trajectory_count globbed (storage cfg) dir"
  assumes sets: "train_set m = Some tr" "valid_set m = Some va" "test_set m = Some te"
    and dyn: "truthy (dynamic_updates_from cfg)"
    and grow: "n < n_new"
    and fr: "0 \<le> train_fraction cfg" "0 \<le> valid_fraction cfg" "0 \<le> test_fraction cfg"
    and rt: "round_product (n_new - n) (train_fraction cfg) = Inr N_train"
    and rv: "round_product (n_new - n) (valid_fraction cfg) = Inr N_valid"
    and re: "round_product (n_new - n) (test_fraction cfg) = Inr N_test"
    and total: "N_tot = N_train + N_test + N_valid"
    and p: "is_randperm perm (n_new - n)"
    and files: "\<forall>i \<in> {n..<n_new}. \<exists>t. torch_load dir (trajectory_file i) = Inr t \<and>
        (\<forall>s \<in> {tr, va, te}. t_skip (slices s) + t_prediction (slices s) \<le> int (length t))"
  shows "\<exists>ts tr' va' te'.
      get_trajectory_split globbed dir perm m
        = Inr (m\<lparr>n_on_disk := n_new, train_set := Some tr', valid_set := Some va',
                 test_set := Some te'\<rparr>) \<and>
      map Inr ts = loads_of dir (selection_of perm n N_tot) \<and>
      int (length ts) = min N_tot (n_new - n) \<and>
      trajectories tr' = trajectories tr @ take (nat N_train) ts \<and>
      trajectories va' = trajectories va @ take (nat N_valid) (drop (nat N_train) ts) \<and>
      trajectories te' = trajectories te @ drop (nat N_valid) (drop (nat N_train) ts) \<and>
      (\<exists>ins outs. slices tr' = (slices tr)\<lparr>in_slices := in_slices (slices tr) @ ins,
                                          out_slices := out_slices (slices tr) @ outs\<rparr>) \<and>
      (\<exists>ins outs. slices va' = (slices va)\<lparr>in_slices := in_slices (slices va) @ ins,
                                          out_slices := out_slices (slices va) @ outs\<rparr>) \<and>
      (\<exists>ins outs. slices te' = (slices te)\<lparr>in_slices := in_slices (slices te) @ ins,
                                          out_slices := out_slices (slices te) @ outs\<rparr>)"
proof -
  have d0: "0 \<le> n_new - n" using grow by simp
  have tr0: "0 \<le> N_train" using rt d0 fr(1) by (rule round_product_nonneg)
  have va0: "0 \<le> N_valid" using rv d0 fr(2) by (rule round_product_nonneg)
  have te0: "0 \<le> N_test" using re d0 fr(3) by (rule round_product_nonneg)
  have tot0: "0 \<le> N_tot" unfolding total using tr0 va0 te0 by simp
  have counts: "split_counts (n_new - n) cfg = Inr (N_train, N_valid, N_test)"
    by (rule split_counts_Inr [OF rt rv re])
  let ?m1 = "m\<lparr>n_on_disk := n_new\<rparr>"
  have n1: "n_new \<le> n_on_disk ?m1" by simp
  have b: "n \<le> n_new" using grow by simp
  have files': "\<forall>i \<in> {n..<n_new}. \<exists>t. torch_load dir (trajectory_file i) = Inr t \<and>
        (\<lambda>t. \<forall>s \<in> {tr, va, te}. t_skip (slices s) + t_prediction (slices s) \<le> int (length t)) t"
    using files by simp
  from get_trajectories_loaded [OF n1 tot0 b p files'] obtain ts where
    ts: "get_trajectories dir perm ?m1 n n_new N_tot = Inr ts"
      "map Inr ts = loads_of dir (selection_of perm n N_tot)"
      "int (length ts) = min N_tot (n_new - n)"
      "\<forall>t \<in> set ts. \<forall>s \<in> {tr, va, te}. t_skip (slices s) + t_prediction (slices s) \<le> int (length t)"
    by auto
  let ?train = "take (nat N_train) ts"
  let ?valid = "take (nat N_valid) (drop (nat N_train) ts)"
  let ?test = "drop (nat N_valid) (drop (nat N_train) ts)"
  have sub: "set ?train \<subseteq> set ts" "set ?valid \<subseteq> set ts" "set ?test \<subseteq> set ts"
    by (auto dest!: in_set_takeD in_set_dropD)
  have l: "\<forall>t \<in> set ?train. t_skip (slices tr) + t_prediction (slices tr) \<le> int (length t)"
    "\<forall>t \<in> set ?valid. t_skip (slices va) + t_prediction (slices va) \<le> int (length t)"
    "\<forall>t \<in> set ?test. t_skip (slices te) + t_prediction (slices te) \<le> int (length t)"
    using sub ts(4) by blast+
  from extend_set_long [OF l(1)] obtain tr' where
    tr': "extend_set tr ?train = Inr tr'" "trajectories tr' = trajectories tr @ ?train"
      "\<exists>ins outs. slices tr' = (slices tr)\<lparr>in_slices := in_slices (slices tr) @ ins,
                                          out_slices := out_slices (slices tr) @ outs\<rparr>"
    by blast
  from extend_set_long [OF l(2)] obtain va' where
    va': "extend_set va ?valid = Inr va'" "trajectories va' = trajectories va @ ?valid"
      "\<exists>ins outs. slices va' = (slices va)\<lparr>in_slices := in_slices (slices va) @ ins,
                                          out_slices := out_slices (slices va) @ outs\<rparr>"
    by blast
  from extend_set_long [OF l(3)] obtain te' where
    te': "extend_set te ?test = Inr te'" "trajectories te' = trajectories te @ ?test"
      "\<exists>ins outs. slices te' = (slices te)\<lparr>in_slices := in_slices (slices te) @ ins,
                                          out_slices := out_slices (slices te) @ outs\<rparr>"
    by blast
  have blocks: "py_take N_train ts = ?train" "py_take N_valid (py_drop N_train ts) = ?valid"
    "py_drop N_valid (py_drop N_train ts) = ?test"
    using tr0 va0 by (simp_all add: py_take_nonneg py_drop_nonneg)
  have ne: "get_trajectory_count globbed (storage (config m)) dir \<noteq> n_on_disk m"
    using grow by (simp add: n_def n_new_def cfg_def)
  have main: "get_trajectory_split globbed dir perm m
        = Inr (m\<lparr>n_on_disk := n_new, train_set := Some tr', valid_set := Some va',
                 test_set := Some te'\<rparr>)"
    unfolding get_trajectory_split_def Let_def
    using sets dyn ne counts ts(1) tr'(1) va'(1) te'(1) blocks
    unfolding total n_def n_new_def cfg_def
    by simp
  show ?thesis
    by (rule exI [of _ ts], rule exI [of _ tr'], rule exI [of _ va'], rule exI [of _ te'])
      (intro conjI main ts(2) ts(3) tr'(2) va'(2) te'(2) tr'(3) va'(3) te'(3))
qed

lemma split_count_unchanged:
  assumes "train_set m \<noteq> None"
    and "get_trajectory_count globbed (storage (config m)) dir = n_on_disk m"
  shows "get_trajectory_split globbed dir perm m = Inr m"
  using assms by (auto simp add: get_trajectory_split_def Let_def)

lemma split_threshold_zero:
  assumes "train_set m \<noteq> None" "dynamic_updates_from (config m) = Some 0"
  shows "get_trajectory_split globbed dir perm m = Inr m"
  using assms by (auto simp add: get_trajectory_split_def Let_def truthy_def)

lemma split_static:
  assumes "train_set m \<noteq> None" "dynamic_updates_from (config m) = None"
  shows "get_trajectory_split globbed dir perm m = Inr m"
  using assms by (auto simp add: get_trajectory_split_def Let_def truthy_def)

lemma round_product_half_30: "round_product 30 (1 / 2) = Inr 15"
  by code_simp

lemma round_product_quarter_30: "round_product 30 (1 / 4) = Inr 8"
  by code_simp

lemma loads_of_length:
  assumes "map Inr ts = loads_of dir sel"
  shows "length ts = length sel"
  using arg_cong [OF assms, of length] by (simp add: loads_of_def)

text \<open>
  \<^bold>\<open>C6\<close>, as amended. Let the split exist, let \<^verbatim>\<open>dynamic_updates_from\<close> be a non-zero
  threshold, and let the count that \<^verbatim>\<open>get_trajectory_count\<close> reads have grown from \<open>n\<close>
  to \<open>n_new\<close>, each file of \<open>[n, n_new)\<close> loading as a trajectory long enough for the
  windows of the three sets. Let the three calls of \<^verbatim>\<open>round\<close> return: \<open>N_train\<close>,
  \<open>N_valid\<close> and \<open>N_test\<close> are \<open>round ((n_new - n) * fraction)\<close>, from the growth alone and
  with no \<open>min\<close> on the test count. The new trajectories are the first
  \<open>N_train + N_valid + N_test\<close> entries of the permuted range \<open>[n, n_new)\<close>, so
  \<open>min (n_new - n) (N_train + N_valid + N_test)\<close> of them. Train is appended the first
  \<open>N_train\<close> of these (all of them when there are fewer), valid the next \<open>N_valid\<close> (as
  many as are left when there are fewer), and test whatever remains after the two, which
  is fewer than \<open>N_test\<close> when the counts add up to more than the growth. Growing from
  100 to 130 with the fractions
  \<open>(0.5, 0.25, 0.25)\<close> gives the counts 15, 8, 8 and appends 15, 8 and 7 trajectories:
  all 30.
\<close>

theorem incremental_split:
  fixes m :: "'a SystemDataManager" and dir :: "'a list directory" and perm :: "int list"
    and globbed :: "string \<Rightarrow> nat" and N_train N_valid N_test :: int
  defines "cfg \<equiv> config m" and "n \<equiv> n_on_disk m"
  defines "n_new \<equiv> get_trajectory_count globbed (storage cfg) dir"
  defines "sel \<equiv> take (nat (N_train + N_valid + N_test)) (map (\<lambda>k. k + n) perm)"
  defines "train_idx \<equiv> take (nat N_train) sel"
  defines "valid_idx \<equiv> take (nat N_valid) (drop (nat N_train) sel)"
  defines "test_idx \<equiv> drop (nat N_valid) (drop (nat N_train) sel)"
  assumes sets: "train_set m = Some tr" "valid_set m = Some va" "test_set m = Some te"
    and dyn: "truthy (dynamic_updates_from cfg)"
    and grow: "n < n_new"
    and fr: "0 \<le> train_fraction cfg" "0 \<le> valid_fraction cfg" "0 \<le> test_fraction cfg"
    and rt: "round_product (n_new - n) (train_fraction cfg) = Inr N_train"
    and rv: "round_product (n_new - n) (valid_fraction cfg) = Inr N_valid"
    and re: "round_product (n_new - n) (test_fraction cfg) = Inr N_test"
    and p: "is_randperm perm (n_new - n)"
    and files: "\<forall>i \<in> {n..<n_new}. \<exists>t. torch_load dir (trajectory_file i) = Inr t \<and>
        (\<forall>s \<in> {tr, va, te}. t_skip (slices s) + t_prediction (slices s) \<le> int (length t))"
  shows "(\<exists>m' tr' va' te' new_train new_valid new_test.
      get_trajectory_split globbed dir perm m = Inr m' \<and> n_on_disk m' = n_new \<and>
      train_set m' = Some tr' \<and> valid_set m' = Some va' \<and> test_set m' = Some te' \<and>
      trajectories tr' = trajectories tr @ new_train \<and>
      trajectories va' = trajectories va @ new_valid \<and>
      trajectories te' = trajectories te @ new_test \<and>
      map Inr new_train = loads_of dir train_idx \<and>
      map Inr new_valid = loads_of dir valid_idx \<and>
      map Inr new_test = loads_of dir test_idx \<and>
      length new_train = length train_idx \<and> length new_valid = length valid_idx \<and>
      length new_test = length test_idx) \<and>
    distinct sel \<and> set sel \<subseteq> {n..<n_new} \<and> train_idx @ valid_idx @ test_idx = sel \<and>
    int (length sel) = min (n_new - n) (N_train + N_valid + N_test) \<and>
    int (length train_idx) = min N_train (int (length sel)) \<and>
    int (length valid_idx) = min N_valid (int (length sel) - int (length train_idx)) \<and>
    int (length test_idx) = int (length sel) - int (length train_idx) - int (length valid_idx) \<and>
    (n = 100 \<and> n_new = 130 \<and> train_fraction cfg = 1 / 2 \<and> valid_fraction cfg = 1 / 4 \<and>
     test_fraction cfg = 1 / 4 \<longrightarrow>
       N_train = 15 \<and> N_valid = 8 \<and> N_test = 8 \<and>
       length train_idx = 15 \<and> length valid_idx = 8 \<and> length test_idx = 7)"
proof -
  define N_tot where "N_tot = N_train + N_test + N_valid"
  have d0: "0 \<le> n_new - n" using grow by simp
  have tr0: "0 \<le> N_train" using rt d0 fr(1) by (rule round_product_nonneg)
  have va0: "0 \<le> N_valid" using rv d0 fr(2) by (rule round_product_nonneg)
  have te0: "0 \<le> N_test" using re d0 fr(3) by (rule round_product_nonneg)
  have tot0: "0 \<le> N_tot" unfolding N_tot_def using tr0 va0 te0 by simp
  have tot: "N_train + N_valid + N_test = N_tot" by (simp add: N_tot_def)
  note sf = selection_of_facts [OF p tot0]
  have sel: "selection_of perm n N_tot = sel" using sf(1) by (simp add: sel_def tot)
  have dsel: "distinct sel" and ssel: "set sel \<subseteq> {n..<n_new}"
    using sf(2,3) unfolding sel by simp_all
  have lsel: "int (length sel) = min (n_new - n) (N_train + N_valid + N_test)"
    using sf(4) d0 unfolding sel tot by simp
  from growth_blocks [where globbed = globbed, OF sets dyn [unfolded cfg_def]
      grow [unfolded n_def n_new_def cfg_def] fr [unfolded cfg_def]
      rt [unfolded n_def n_new_def cfg_def] rv [unfolded n_def n_new_def cfg_def]
      re [unfolded n_def n_new_def cfg_def] N_tot_def p [unfolded n_def n_new_def cfg_def]
      files [unfolded n_def n_new_def cfg_def]]
  obtain ts tr' va' te' where r:
    "get_trajectory_split globbed dir perm m
        = Inr (m\<lparr>n_on_disk := n_new, train_set := Some tr', valid_set := Some va',
                 test_set := Some te'\<rparr>)"
    "map Inr ts = loads_of dir (selection_of perm n N_tot)"
    "trajectories tr' = trajectories tr @ take (nat N_train) ts"
    "trajectories va' = trajectories va @ take (nat N_valid) (drop (nat N_train) ts)"
    "trajectories te' = trajectories te @ drop (nat N_valid) (drop (nat N_train) ts)"
    unfolding n_def n_new_def cfg_def by blast
  have ld: "map Inr ts = loads_of dir sel" using r(2) sel by simp
  have 1: "map Inr (take (nat N_train) ts) = loads_of dir train_idx"
    unfolding train_idx_def by (rule loads_of_take [OF ld])
  have 2: "map Inr (take (nat N_valid) (drop (nat N_train) ts)) = loads_of dir valid_idx"
    unfolding valid_idx_def by (rule loads_of_take [OF loads_of_drop [OF ld]])
  have 3: "map Inr (drop (nat N_valid) (drop (nat N_train) ts)) = loads_of dir test_idx"
    unfolding test_idx_def by (rule loads_of_drop [OF loads_of_drop [OF ld]])
  have ex: "\<exists>m' tr' va' te' new_train new_valid new_test.
      get_trajectory_split globbed dir perm m = Inr m' \<and> n_on_disk m' = n_new \<and>
      train_set m' = Some tr' \<and> valid_set m' = Some va' \<and> test_set m' = Some te' \<and>
      trajectories tr' = trajectories tr @ new_train \<and>
      trajectories va' = trajectories va @ new_valid \<and>
      trajectories te' = trajectories te @ new_test \<and>
      map Inr new_train = loads_of dir train_idx \<and>
      map Inr new_valid = loads_of dir valid_idx \<and>
      map Inr new_test = loads_of dir test_idx \<and>
      length new_train = length train_idx \<and> length new_valid = length valid_idx \<and>
      length new_test = length test_idx"
  proof -
    define m' where "m' = m\<lparr>n_on_disk := n_new, train_set := Some tr', valid_set := Some va',
                 test_set := Some te'\<rparr>"
    have a: "get_trajectory_split globbed dir perm m = Inr m'" unfolding m'_def by (rule r(1))
    have b: "n_on_disk m' = n_new" "train_set m' = Some tr'" "valid_set m' = Some va'"
      "test_set m' = Some te'"
      by (simp_all add: m'_def)
    show ?thesis
      by (rule exI [of _ m'], rule exI [of _ tr'], rule exI [of _ va'], rule exI [of _ te'],
          rule exI [of _ "take (nat N_train) ts"],
          rule exI [of _ "take (nat N_valid) (drop (nat N_train) ts)"],
          rule exI [of _ "drop (nat N_valid) (drop (nat N_train) ts)"])
        (intro conjI a b r(3) r(4) r(5) 1 2 3 loads_of_length [OF 1] loads_of_length [OF 2]
          loads_of_length [OF 3])
  qed
  have cat: "train_idx @ valid_idx @ test_idx = sel"
    unfolding train_idx_def valid_idx_def test_idx_def by (rule blocks_cat)
  have l1: "int (length train_idx) = min N_train (int (length sel))"
    unfolding train_idx_def using tr0 by simp
  have l2: "int (length valid_idx) = min N_valid (int (length sel) - int (length train_idx))"
    unfolding valid_idx_def train_idx_def using tr0 va0 by simp
  have "length sel = length train_idx + length valid_idx + length test_idx"
    by (subst cat [symmetric]) simp
  then have l3: "int (length test_idx)
      = int (length sel) - int (length train_idx) - int (length valid_idx)"
    by simp
  have inst: "n = 100 \<and> n_new = 130 \<and> train_fraction cfg = 1 / 2 \<and> valid_fraction cfg = 1 / 4 \<and>
     test_fraction cfg = 1 / 4 \<longrightarrow>
       N_train = 15 \<and> N_valid = 8 \<and> N_test = 8 \<and>
       length train_idx = 15 \<and> length valid_idx = 8 \<and> length test_idx = 7"
  proof (intro impI, elim conjE)
    assume a: "n = 100" "n_new = 130" "train_fraction cfg = 1 / 2" "valid_fraction cfg = 1 / 4"
      "test_fraction cfg = 1 / 4"
    have d: "n_new - n = 30" by (simp add: a)
    have t: "N_train = 15" using rt unfolding d a(3) round_product_half_30 by simp
    have v: "N_valid = 8" using rv unfolding d a(4) round_product_quarter_30 by simp
    have e: "N_test = 8" using re unfolding d a(5) round_product_quarter_30 by simp
    have ls: "int (length sel) = 30" using lsel unfolding d t v e by simp
    have a1: "int (length train_idx) = 15" using l1 unfolding ls t by simp
    have a2: "int (length valid_idx) = 8" using l2 unfolding ls a1 v by simp
    have a3: "int (length test_idx) = 7" using l3 unfolding ls a1 a2 by simp
    from a1 a2 a3 have "length train_idx = 15" "length valid_idx = 8" "length test_idx = 7"
      by simp_all
    with t v e show "N_train = 15 \<and> N_valid = 8 \<and> N_test = 8 \<and>
       length train_idx = 15 \<and> length valid_idx = 8 \<and> length test_idx = 7" by simp
  qed
  show ?thesis
    by (intro conjI ex dsel ssel cat lsel l1 l2 l3 inst)
qed

text \<open>Growth from 4 to 10 files with the default fractions: the counts are 3, 2 and 2, and
  the six new files are appended as three, two and one.\<close>

theorem incremental_split_witness:
  "\<exists>m' tr' va' te'.
     get_trajectory_split (\<lambda>pattern. 0)
        [(''0.pt'', [0 :: nat, 100]), (''1.pt'', [1, 101]), (''2.pt'', [2, 102]),
         (''3.pt'', [3, 103]), (''4.pt'', [4, 104]), (''5.pt'', [5, 105]), (''6.pt'', [6, 106]),
         (''7.pt'', [7, 107]), (''8.pt'', [8, 108]), (''9.pt'', [9, 109])]
        [3, 1, 5, 0, 2, 4]
        \<lparr>config = DataConfig_default\<lparr>storage := ''/results/run'',
                    dynamic_updates_from := Some 4\<rparr>,
         n_on_disk = 4,
         train_set = Some \<lparr>slices = \<lparr>t_skip = 0, t_history = 1, t_prediction = 1,
                                in_slices = [[2], [0]], out_slices = [[102], [100]]\<rparr>,
                             trajectories = [[2, 102], [0, 100]]\<rparr>,
         valid_set = Some \<lparr>slices = \<lparr>t_skip = 0, t_history = 1, t_prediction = 1,
                                in_slices = [[3]], out_slices = [[103]]\<rparr>,
                             trajectories = [[3, 103]]\<rparr>,
         test_set = Some \<lparr>slices = \<lparr>t_skip = 0, t_history = 1, t_prediction = 1,
                                in_slices = [[1]], out_slices = [[101]]\<rparr>,
                             trajectories = [[1, 101]]\<rparr>\<rparr> = Inr m' \<and>
     n_on_disk m' = 10 \<and>
     train_set m' = Some tr' \<and> valid_set m' = Some va' \<and> test_set m' = Some te' \<and>
     trajectories tr' = [[2, 102], [0, 100], [7, 107], [5, 105], [9, 109]] \<and>
     trajectories va' = [[3, 103], [4, 104], [6, 106]] \<and>
     trajectories te' = [[1, 101], [8, 108]]"
proof -
  define dir :: "nat list directory" where
    "dir = [(''0.pt'', [0, 100]), (''1.pt'', [1, 101]), (''2.pt'', [2, 102]),
         (''3.pt'', [3, 103]), (''4.pt'', [4, 104]), (''5.pt'', [5, 105]), (''6.pt'', [6, 106]),
         (''7.pt'', [7, 107]), (''8.pt'', [8, 108]), (''9.pt'', [9, 109])]"
  define tr :: "nat TrajectorySet" where
    "tr = \<lparr>slices = \<lparr>t_skip = 0, t_history = 1, t_prediction = 1,
                       in_slices = [[2], [0]], out_slices = [[102], [100]]\<rparr>,
           trajectories = [[2, 102], [0, 100]]\<rparr>"
  define va :: "nat TrajectorySet" where
    "va = \<lparr>slices = \<lparr>t_skip = 0, t_history = 1, t_prediction = 1,
                       in_slices = [[3]], out_slices = [[103]]\<rparr>,
           trajectories = [[3, 103]]\<rparr>"
  define te :: "nat TrajectorySet" where
    "te = \<lparr>slices = \<lparr>t_skip = 0, t_history = 1, t_prediction = 1,
                       in_slices = [[1]], out_slices = [[101]]\<rparr>,
           trajectories = [[1, 101]]\<rparr>"
  define m :: "nat SystemDataManager" where
    "m = \<lparr>config = DataConfig_default\<lparr>storage := ''/results/run'',
                    dynamic_updates_from := Some 4\<rparr>, n_on_disk = 4,
          train_set = Some tr, valid_set = Some va, test_set = Some te\<rparr>"
  define globbed :: "string \<Rightarrow> nat" where "globbed = (\<lambda>pattern. 0)"
  have cfg: "train_fraction (config m) = 1 / 2" "valid_fraction (config m) = 1 / 4"
    "test_fraction (config m) = 1 / 4" "n_on_disk m = 4"
    "dynamic_updates_from (config m) = Some 4" "storage (config m) = ''/results/run''"
    by (simp_all add: m_def DataConfig_default_def)
  have cnt0: "get_trajectory_count globbed ''/results/run'' dir = 10"
    unfolding dir_def globbed_def by code_simp
  have cnt: "get_trajectory_count globbed (storage (config m)) dir = 10"
    unfolding cfg by (rule cnt0)
  have sets: "train_set m = Some tr" "valid_set m = Some va" "test_set m = Some te"
    by (simp_all add: m_def)
  have dyn: "truthy (dynamic_updates_from (config m))" by (simp add: cfg truthy_def)
  have grow: "n_on_disk m < get_trajectory_count globbed (storage (config m)) dir"
    unfolding cnt by (simp add: cfg)
  have fr: "0 \<le> train_fraction (config m)" "0 \<le> valid_fraction (config m)"
    "0 \<le> test_fraction (config m)" by (simp_all add: cfg)
  have d: "get_trajectory_count globbed (storage (config m)) dir - n_on_disk m = 6"
    unfolding cnt by (simp add: cfg)
  have r3: "round_product 6 (1 / 2) = Inr 3" by code_simp
  have r2: "round_product 6 (1 / 4) = Inr 2" by code_simp
  have rt: "round_product (get_trajectory_count globbed (storage (config m)) dir - n_on_disk m)
      (train_fraction (config m)) = Inr 3"
    unfolding d cfg(1) by (rule r3)
  have rv: "round_product (get_trajectory_count globbed (storage (config m)) dir - n_on_disk m)
      (valid_fraction (config m)) = Inr 2"
    unfolding d cfg(2) by (rule r2)
  have re: "round_product (get_trajectory_count globbed (storage (config m)) dir - n_on_disk m)
      (test_fraction (config m)) = Inr 2"
    unfolding d cfg(3) by (rule r2)
  have p: "is_randperm [3, 1, 5, 0, 2, 4]
      (get_trajectory_count globbed (storage (config m)) dir - n_on_disk m)"
    unfolding d by (auto simp add: is_randperm_def)
  have names: "trajectory_file 4 = ''4.pt''" "trajectory_file 5 = ''5.pt''"
    "trajectory_file 6 = ''6.pt''" "trajectory_file 7 = ''7.pt''"
    "trajectory_file 8 = ''8.pt''" "trajectory_file 9 = ''9.pt''"
    by (simp_all add: trajectory_file_def str_int_def str_nat.simps TRAJ_EXTENSION_def)
  have "{4..<10} = {4, 5, 6, 7, 8, 9 :: int}" by auto
  then have files: "\<forall>i \<in> {n_on_disk m..<get_trajectory_count globbed (storage (config m)) dir}.
      \<exists>t. torch_load dir (trajectory_file i) = Inr t \<and>
        (\<forall>s \<in> {tr, va, te}. t_skip (slices s) + t_prediction (slices s) \<le> int (length t))"
    unfolding cnt cfg(4) by (simp add: names dir_def torch_load_def tr_def va_def te_def)
  from incremental_split [where globbed = globbed, OF sets dyn grow fr rt rv re p files]
  obtain m' tr' va' te' nt nv ne where res:
    "get_trajectory_split globbed dir [3, 1, 5, 0, 2, 4] m = Inr m'" "n_on_disk m' = 10"
    "train_set m' = Some tr'" "valid_set m' = Some va'" "test_set m' = Some te'"
    "trajectories tr' = trajectories tr @ nt" "trajectories va' = trajectories va @ nv"
    "trajectories te' = trajectories te @ ne"
    "map Inr nt = loads_of dir [7, 5, 9]" "map Inr nv = loads_of dir [4, 6]"
    "map Inr ne = loads_of dir [8]"
    unfolding cnt cfg(4) by auto
  have l: "loads_of dir [7, 5, 9] = [Inr [7, 107], Inr [5, 105], Inr [9, 109]]"
    "loads_of dir [4, 6] = [Inr [4, 104], Inr [6, 106]]" "loads_of dir [8] = [Inr [8, 108]]"
    by (simp_all add: loads_of_def names torch_load_def dir_def)
  from res(9) l(1) have 1: "nt = [[7, 107], [5, 105], [9, 109]]" by auto
  from res(10) l(2) have 2: "nv = [[4, 104], [6, 106]]" by auto
  from res(11) l(3) have 3: "ne = [[8, 108]]" by auto
  have "trajectories tr' = [[2, 102], [0, 100], [7, 107], [5, 105], [9, 109]]"
    "trajectories va' = [[3, 103], [4, 104], [6, 106]]"
    "trajectories te' = [[1, 101], [8, 108]]"
    using res(6,7,8) 1 2 3 by (simp_all add: tr_def va_def te_def)
  with res(1-5) show ?thesis unfolding dir_def m_def tr_def va_def te_def globbed_def by blast
qed

text \<open>
  The claim as stated fails at its own example. After the initial split of 100 files
  (50, 25, 25), growth to 130 files in dynamic mode gives \<open>round (30 * 0.25) = 8\<close> as test
  count, but the test set receives 7 trajectories (65, 33, 32 after the call): the
  selection is cut to the 30 new indices, which bounds the test block as the \<open>min\<close> of the
  initial split does.
\<close>

theorem incremental_split_counterexample:
  "round_product (130 - 100) (test_fraction DataConfig_default) = Inr 8 \<and>
   (case get_trajectory_split (\<lambda>pattern. 0)
          (map (\<lambda>i. (trajectory_file (int i), [i])) [0..<100]) [0..99]
          \<lparr>config = DataConfig_default\<lparr>storage := ''/results/run'',
                      dynamic_updates_from := Some 100\<rparr>,
           n_on_disk = 100, train_set = None, valid_set = None, test_set = None\<rparr> of
      Inl e \<Rightarrow> None
    | Inr m1 \<Rightarrow>
       (case get_trajectory_split (\<lambda>pattern. 0)
               (map (\<lambda>i. (trajectory_file (int i), [i])) [0..<130]) [0..29] m1 of
          Inl e \<Rightarrow> None
        | Inr m2 \<Rightarrow>
           Some (n_on_disk m1, map_option (length \<circ> trajectories) (train_set m1),
                 map_option (length \<circ> trajectories) (valid_set m1),
                 map_option (length \<circ> trajectories) (test_set m1),
                 n_on_disk m2, map_option (length \<circ> trajectories) (train_set m2),
                 map_option (length \<circ> trajectories) (valid_set m2),
                 map_option (length \<circ> trajectories) (test_set m2))))
   = Some (100, Some 50, Some 25, Some 25, 130, Some 65, Some 33, Some 32)"
  by code_simp

text \<open>
  \<^bold>\<open>C2\<close>. A configuration with \<^verbatim>\<open>dynamic_updates_from = 0\<close> is in dynamic mode for
  \<^verbatim>\<open>__init__\<close> (\<^verbatim>\<open>is not None\<close>), and it is the only data source. The growth branch
  tests the truth value of the field instead, and 0 is false: after the initial split of
  4 files, a call made when the directory holds 8 files returns the manager as it was,
  \<open>n_on_disk\<close> still 4, nothing read from the disk. (For a non-zero threshold the branch
  does what the claim says: \<open>growth_blocks\<close>, \<open>split_count_unchanged\<close>.)
\<close>

theorem growth_skipped_for_threshold_zero:
  "do_dynamics (DataConfig_default\<lparr>storage := ''/results/run'', dynamic_updates_from := Some 0\<rparr>) \<and>
   one_data_source
     (DataConfig_default\<lparr>storage := ''/results/run'', dynamic_updates_from := Some 0\<rparr>) \<and>
   (case get_trajectory_split globbed
          (map (\<lambda>i. (trajectory_file (int i), [i])) [0..<4]) [2, 0, 3, 1]
          \<lparr>config = DataConfig_default\<lparr>storage := ''/results/run'',
                      dynamic_updates_from := Some 0\<rparr>,
           n_on_disk = 4, train_set = None, valid_set = None, test_set = None\<rparr> of
      Inl e \<Rightarrow> False
    | Inr m1 \<Rightarrow>
        n_on_disk m1 = 4 \<and>
        map_option trajectories (train_set m1) = Some [[2], [0]] \<and>
        map_option trajectories (valid_set m1) = Some [[3]] \<and>
        map_option trajectories (test_set m1) = Some [[1]] \<and>
        get_trajectory_count globbed ''/results/run''
          (map (\<lambda>i. (trajectory_file (int i), [i])) [0..<8]) = 8 \<and>
        get_trajectory_split globbed
          (map (\<lambda>i. (trajectory_file (int i), [i])) [0..<8]) [0, 1, 2, 3] m1
          = Inr m1)"
  by code_simp

section \<open>Claims about population growth\<close>

lemma save_batch_log:
  assumes "save_batch env traj_i is g = (r, g')"
  shows "n_generated g' = n_generated g \<and> n_set g' = n_set g \<and> calls g' = calls g \<and>
         (\<exists>ks. set ks \<subseteq> set is \<and> written g' = written g @ map (\<lambda>i. n_generated g + i) ks)"
  using assms
proof (induction "is" arbitrary: g)
  case Nil
  then show ?case by (auto intro: exI [of _ "[]"])
next
  case (Cons i rest)
  show ?case
  proof (cases "py_nth traj_i i")
    case (Inl e)
    with Cons.prems show ?thesis by (auto intro: exI [of _ "[]"])
  next
    case (Inr t)
    let ?g = "g\<lparr>disk := torch_save t (trajectory_file (n_generated g + i)) (env (ticks g) (disk g)),
               ticks := Suc (ticks g), written := written g @ [n_generated g + i]\<rparr>"
    from Cons.prems Inr have "save_batch env traj_i rest ?g = (r, g')" by simp
    from Cons.IH [OF this] obtain ks where ks: "set ks \<subseteq> set rest"
      "written g' = written ?g @ map (\<lambda>i. n_generated ?g + i) ks"
      and same: "n_generated g' = n_generated g" "n_set g' = n_set g" "calls g' = calls g"
      by auto
    have "set (i # ks) \<subseteq> set (i # rest)" using ks(1) by auto
    moreover have "written g' = written g @ map (\<lambda>i. n_generated g + i) (i # ks)"
      using ks(2) by simp
    ultimately show ?thesis using same by blast
  qed
qed

lemma pop_int [simp]:
  "below_pop n (IntVal p) = (n < p)"
  "equals_pop n (IntVal p) = (n = p)"
  "next_n_set k (IntVal p) n = Inr (min k (p - n))"
  by (simp_all add: below_pop_def equals_pop_def next_n_set_def)

lemma generate_loop_done:
  "\<not> n_generated g < pop \<Longrightarrow> generate_loop globbed cfg system env (IntVal pop) T fuel g = Finished g"
  by (cases fuel) (simp_all add: pop_int)

lemma get_trajectory_count_nonneg: "0 \<le> get_trajectory_count globbed storage_name dir"
  by (simp add: get_trajectory_count_def get_numeric_file_count_def)

lemma generate_loop_written:
  assumes "\<forall>i \<in> set (written g). 0 \<le> i \<and> i < pop"
  shows "\<forall>i \<in> set (written (state_of (generate_loop globbed cfg system env (IntVal pop) T fuel g))).
           0 \<le> i \<and> i < pop"
  using assms
proof (induction fuel arbitrary: g)
  case 0
  then show ?case by simp
next
  case (Suc fuel)
  show ?case
  proof (cases "n_generated g < pop")
    case False
    with Suc.prems show ?thesis by simp
  next
    case True
    show ?thesis
    proof (cases "generate_trajectory_set cfg system (calls g) (n_set g) T")
      case (Inl e)
      with True Suc.prems show ?thesis by simp
    next
      case (Inr traj_i)
      define g1 where "g1 = g\<lparr>disk := env (ticks g) (disk g),
          n_generated := get_trajectory_count globbed (storage cfg) (env (ticks g) (disk g)),
          calls := calls g + length traj_i, ticks := Suc (ticks g)\<rparr>"
      define g2 where "g2 = g1\<lparr>n_set := min (n_set g1) (pop - n_generated g1)\<rparr>"
      have w1: "written g1 = written g" by (simp add: g1_def)
      have n1: "0 \<le> n_generated g1" by (simp add: g1_def get_trajectory_count_nonneg)
      show ?thesis
      proof (cases "n_generated g1 = pop")
        case met: True
        have "generate_loop globbed cfg system env (IntVal pop) T (Suc fuel) g = Finished g1"
          using True Inr met by (simp add: g1_def Let_def pop_int)
        then show ?thesis using Suc.prems w1 by simp
      next
        case unmet: False
        obtain r g3 where sb: "save_batch env traj_i [0..n_set g2 - 1] g2 = (r, g3)"
          by (cases "save_batch env traj_i [0..n_set g2 - 1] g2")
        from save_batch_log [OF sb] obtain ks where ks: "set ks \<subseteq> set [0..n_set g2 - 1]"
          "written g3 = written g2 @ map (\<lambda>i. n_generated g2 + i) ks" by auto
        have "n_set g2 \<le> pop - n_generated g1" by (simp add: g2_def)
        then have bound: "\<forall>k \<in> set ks. 0 \<le> n_generated g2 + k \<and> n_generated g2 + k < pop"
          using ks(1) n1 by (auto simp add: g2_def)
        have w3: "\<forall>i \<in> set (written g3). 0 \<le> i \<and> i < pop"
          using ks(2) bound Suc.prems w1 by (auto simp add: g2_def)
        have step: "generate_loop globbed cfg system env (IntVal pop) T (Suc fuel) g =
            (case r of Some e \<Rightarrow> Raised e g3
                     | None \<Rightarrow> generate_loop globbed cfg system env (IntVal pop) T fuel g3)"
          using True Inr unmet sb by (simp add: g1_def g2_def Let_def pop_int)
        show ?thesis
        proof (cases r)
          case None
          with step Suc.IH [OF w3] show ?thesis by simp
        next
          case (Some e)
          with step w3 show ?thesis by simp
        qed
      qed
    qed
  qed
qed

lemma generate_loop_finished:
  assumes "generate_loop globbed cfg system env (IntVal pop) T fuel g = Finished g'"
  shows "pop \<le> n_generated g'"
  using assms
proof (induction fuel arbitrary: g)
  case 0
  then show ?case by (simp split: if_splits)
next
  case (Suc fuel)
  show ?case
  proof (cases "n_generated g < pop")
    case False
    with Suc.prems show ?thesis by simp
  next
    case True
    show ?thesis
    proof (cases "generate_trajectory_set cfg system (calls g) (n_set g) T")
      case (Inl e)
      with True Suc.prems show ?thesis by simp
    next
      case (Inr traj_i)
      define g1 where "g1 = g\<lparr>disk := env (ticks g) (disk g),
          n_generated := get_trajectory_count globbed (storage cfg) (env (ticks g) (disk g)),
          calls := calls g + length traj_i, ticks := Suc (ticks g)\<rparr>"
      define g2 where "g2 = g1\<lparr>n_set := min (n_set g1) (pop - n_generated g1)\<rparr>"
      show ?thesis
      proof (cases "n_generated g1 = pop")
        case met: True
        have "generate_loop globbed cfg system env (IntVal pop) T (Suc fuel) g = Finished g1"
          using True Inr met by (simp add: g1_def Let_def pop_int)
        with Suc.prems met show ?thesis by simp
      next
        case unmet: False
        obtain r g3 where sb: "save_batch env traj_i [0..n_set g2 - 1] g2 = (r, g3)"
          by (cases "save_batch env traj_i [0..n_set g2 - 1] g2")
        have step: "generate_loop globbed cfg system env (IntVal pop) T (Suc fuel) g =
            (case r of Some e \<Rightarrow> Raised e g3
                     | None \<Rightarrow> generate_loop globbed cfg system env (IntVal pop) T fuel g3)"
          using True Inr unmet sb by (simp add: g1_def g2_def Let_def pop_int)
        show ?thesis
        proof (cases r)
          case None
          with step Suc.prems have "generate_loop globbed cfg system env (IntVal pop) T fuel g3 = Finished g'"
            by simp
          then show ?thesis by (rule Suc.IH)
        next
          case (Some e)
          with step Suc.prems show ?thesis by simp
        qed
      qed
    qed
  qed
qed

lemma generate_loop_target_met:
  assumes todo: "n_generated g < pop"
    and batch: "generate_trajectory_set cfg system (calls g) (n_set g) T = Inr traj_i"
    and met: "pop \<le> get_trajectory_count globbed (storage cfg) (env (ticks g) (disk g))"
  shows "\<exists>g'. generate_loop globbed cfg system env (IntVal pop) T (Suc fuel) g = Finished g' \<and>
           written g' = written g \<and> disk g' = env (ticks g) (disk g) \<and>
           n_generated g' = get_trajectory_count globbed (storage cfg) (env (ticks g) (disk g))"
proof -
  define g1 where "g1 = g\<lparr>disk := env (ticks g) (disk g),
      n_generated := get_trajectory_count globbed (storage cfg) (env (ticks g) (disk g)),
      calls := calls g + length traj_i, ticks := Suc (ticks g)\<rparr>"
  define g2 where "g2 = g1\<lparr>n_set := min (n_set g1) (pop - n_generated g1)\<rparr>"
  show ?thesis
  proof (cases "n_generated g1 = pop")
    case True
    have "generate_loop globbed cfg system env (IntVal pop) T (Suc fuel) g = Finished g1"
      using todo batch True by (simp add: g1_def Let_def pop_int)
    then show ?thesis by (simp add: g1_def)
  next
    case False
    with met have over: "pop < n_generated g1" by (simp add: g1_def)
    then have "n_set g2 - 1 < 0" by (simp add: g2_def)
    then have empty: "[0..n_set g2 - 1] = []" by simp
    have reached: "\<not> n_generated g2 < pop" using over by (simp add: g2_def)
    have "generate_loop globbed cfg system env (IntVal pop) T (Suc fuel) g = generate_loop globbed cfg system env (IntVal pop) T fuel g2"
      using todo batch False empty by (simp add: g1_def g2_def Let_def pop_int)
    also have "\<dots> = Finished g2" using reached by (rule generate_loop_done)
    finally show ?thesis by (simp add: g2_def g1_def)
  qed
qed

lemma digits_table:
  "\<forall>k \<in> set [0..<10]. digit_value (''0123456789'' ! k) = k \<and>
      ''0123456789'' ! k \<in> set ''0123456789''"
  by code_simp

lemma digit_value_nth: "k < 10 \<Longrightarrow> digit_value (''0123456789'' ! k) = k"
  using digits_table by simp

lemma digit_nth_is_digit: "k < 10 \<Longrightarrow> ''0123456789'' ! k \<in> set ''0123456789''"
  using digits_table by simp

lemma str_nat_value: "foldl (\<lambda>a c. 10 * a + digit_value c) 0 (str_nat n) = n"
proof (induction n rule: str_nat.induct)
  case (1 n)
  show ?case
  proof (cases "n < 10")
    case True
    then show ?thesis by (subst str_nat.simps) (simp add: digit_value_nth)
  next
    case False
    have "n mod 10 < 10" by simp
    then have "digit_value (''0123456789'' ! (n mod 10)) = n mod 10" by (rule digit_value_nth)
    with False "1.IH" show ?thesis by (subst str_nat.simps) simp
  qed
qed

lemma str_nat_inj:
  assumes "str_nat a = str_nat b"
  shows "a = b"
proof -
  have "a = foldl (\<lambda>a c. 10 * a + digit_value c) 0 (str_nat a)"
    by (simp only: str_nat_value)
  also have "\<dots> = foldl (\<lambda>a c. 10 * a + digit_value c) 0 (str_nat b)"
    by (simp only: assms)
  also have "\<dots> = b" by (simp only: str_nat_value)
  finally show ?thesis .
qed

lemma str_nat_head: "\<exists>c rest. str_nat n = c # rest \<and> c \<in> set ''0123456789''"
proof (induction n rule: str_nat.induct)
  case (1 n)
  show ?case
  proof (cases "n < 10")
    case True
    then have "''0123456789'' ! n \<in> set ''0123456789''" by (rule digit_nth_is_digit)
    with True show ?thesis by (subst str_nat.simps) simp
  next
    case False
    with "1.IH" obtain c rest where "str_nat (n div 10) = c # rest" "c \<in> set ''0123456789''"
      by blast
    with False show ?thesis by (subst str_nat.simps) simp
  qed
qed

lemma trajectory_file_nat: "trajectory_file (int k) = str_nat k @ ''.pt''"
  by (simp add: trajectory_file_def str_int_def TRAJ_EXTENSION_def)

lemma trajectory_file_inj: "trajectory_file (int a) = trajectory_file (int b) \<Longrightarrow> a = b"
  by (simp add: trajectory_file_nat str_nat_inj)

lemma trajectory_file_counted: "fnmatch_numeric TRAJ_EXTENSION (trajectory_file (int k))"
proof -
  from str_nat_head [of k] obtain c rest where "str_nat k = c # rest" "c \<in> set ''0123456789''"
    by blast
  then show ?thesis
    by (simp add: fnmatch_numeric_def trajectory_file_nat TRAJ_EXTENSION_def suffix_def)
qed

lemma dense_count:
  assumes "dense d" and "\<not> has_magic (data_dir storage_name)"
  shows "get_trajectory_count globbed storage_name d = int (length d)"
proof -
  have "filter (fnmatch_numeric TRAJ_EXTENSION) (map fst d) = map fst d"
    unfolding assms(1) [unfolded dense_def]
    by (rule filter_True) (auto simp add: trajectory_file_counted)
  moreover have "\<not> has_magic TRAJ_EXTENSION" "CHR ''/'' \<notin> set TRAJ_EXTENSION"
    by (simp_all add: TRAJ_EXTENSION_def has_magic_def)
  ultimately show ?thesis
    using assms(2) by (simp add: get_trajectory_count_def get_numeric_file_count_def)
qed

lemma dense_member:
  assumes "dense d"
  shows "trajectory_file (int j) \<in> fst ` set d \<longleftrightarrow> j < length d"
proof -
  have "fst ` set d = set (map fst d)" by simp
  also have "\<dots> = (\<lambda>k. trajectory_file (int k)) ` {0..<length d}"
    unfolding assms [unfolded dense_def] by simp
  finally show ?thesis by (auto dest: trajectory_file_inj)
qed

lemma dense_save:
  assumes d: "dense d" and j: "j \<le> length d"
  shows "dense (torch_save v (trajectory_file (int j)) d)"
    and "length d \<le> length (torch_save v (trajectory_file (int j)) d)"
    and "j < length (torch_save v (trajectory_file (int j)) d)"
proof -
  let ?name = "trajectory_file (int j)"
  let ?d' = "torch_save v ?name d"
  have all: "dense ?d' \<and> length d \<le> length ?d' \<and> j < length ?d'"
  proof (cases "j < length d")
    case True
    then have mem: "?name \<in> fst ` set d" using dense_member [OF d] by simp
    then have k: "map fst ?d' = map fst d"
      by (simp add: torch_save_def update_keys)
    from arg_cong [OF k, of length] have l: "length ?d' = length d" by simp
    have "dense ?d'" using d by (simp add: dense_def k l)
    then show ?thesis using True by (simp add: l)
  next
    case False
    with j have e: "j = length d" by simp
    then have mem: "?name \<notin> fst ` set d" using dense_member [OF d, of j] by simp
    then have k: "map fst ?d' = map fst d @ [?name]"
      by (simp add: torch_save_def update_keys)
    from arg_cong [OF k, of length] have l: "length ?d' = Suc (length d)" by simp
    have "dense ?d'"
      unfolding dense_def k l using d [unfolded dense_def] by (simp add: e)
    then show ?thesis using l e by simp
  qed
  then show "dense ?d'" "length d \<le> length ?d'" "j < length ?d'" by simp_all
qed

lemma save_batch_dense:
  assumes env: "appends_only env"
  shows "dense (disk g) \<Longrightarrow> 0 \<le> n_generated g \<Longrightarrow> 0 \<le> i \<Longrightarrow>
     n_generated g + i \<le> int (length (disk g)) \<Longrightarrow> j < int (length traj_i) \<Longrightarrow>
     \<exists>g'. save_batch env traj_i [i..j] g = (None, g') \<and> dense (disk g') \<and>
       length (disk g) \<le> length (disk g') \<and>
       (i \<le> j \<longrightarrow> n_generated g + j + 1 \<le> int (length (disk g'))) \<and>
       n_generated g' = n_generated g \<and> n_set g' = n_set g"
proof (induction i j arbitrary: g rule: upto.induct)
  case (1 i j)
  show ?case
  proof (cases "i \<le> j")
    case False
    then have "[i..j] = []" by simp
    with False "1.prems" show ?thesis by simp
  next
    case True
    then have range: "[i..j] = i # [i + 1..j]" by (simp add: upto_rec1)
    from True "1.prems" have nth: "py_nth traj_i i = Inr (traj_i ! nat i)"
      by (simp add: py_nth_def)
    let ?d1 = "env (ticks g) (disk g)"
    let ?k = "nat (n_generated g + i)"
    let ?d2 = "torch_save (traj_i ! nat i) (trajectory_file (n_generated g + i)) ?d1"
    let ?g = "g\<lparr>disk := ?d2, ticks := Suc (ticks g), written := written g @ [n_generated g + i]\<rparr>"
    from env "1.prems"(1) have d1: "dense ?d1" "length (disk g) \<le> length ?d1"
      by (simp_all add: appends_only_def)
    have idx: "n_generated g + i = int ?k" using "1.prems" by simp
    have k: "?k \<le> length ?d1" using "1.prems" d1(2) by simp
    note sv = dense_save [OF d1(1) k, of "traj_i ! nat i", folded idx]
    have step: "save_batch env traj_i [i..j] g = save_batch env traj_i [i + 1..j] ?g"
      by (simp add: range nth)
    have "\<exists>g'. save_batch env traj_i [i + 1..j] ?g = (None, g') \<and> dense (disk g') \<and>
       length (disk ?g) \<le> length (disk g') \<and>
       (i + 1 \<le> j \<longrightarrow> n_generated ?g + j + 1 \<le> int (length (disk g'))) \<and>
       n_generated g' = n_generated ?g \<and> n_set g' = n_set ?g"
    proof (rule "1.IH" [OF True])
      show "dense (disk ?g)" using sv(1) by simp
      show "0 \<le> n_generated ?g" using "1.prems" by simp
      show "0 \<le> i + 1" using "1.prems" by simp
      show "n_generated ?g + (i + 1) \<le> int (length (disk ?g))" using sv(3) by simp
      show "j < int (length traj_i)" using "1.prems" by simp
    qed
    then obtain g' where g': "save_batch env traj_i [i + 1..j] ?g = (None, g')" "dense (disk g')"
      "length (disk ?g) \<le> length (disk g')"
      "i + 1 \<le> j \<longrightarrow> n_generated ?g + j + 1 \<le> int (length (disk g'))"
      "n_generated g' = n_generated ?g" "n_set g' = n_set ?g" by blast
    have grow: "length (disk g) \<le> length (disk g')"
      using g'(3) sv(2) d1(2) by simp
    have reach: "n_generated g + j + 1 \<le> int (length (disk g'))"
    proof (cases "i + 1 \<le> j")
      case True
      with g'(4) show ?thesis by simp
    next
      case False
      with \<open>i \<le> j\<close> have "j = i" by simp
      then show ?thesis using sv(3) g'(3) by simp
    qed
    show ?thesis
      using step g'(1,2,5,6) grow reach by simp
  qed
qed

lemma generate_loop_exit_count:
  assumes "generate_loop globbed cfg system env (IntVal pop) T fuel g = Finished g'"
    and "pop \<le> n_generated g \<longrightarrow> n_generated g = get_trajectory_count globbed (storage cfg) (disk g)"
  shows "pop \<le> n_generated g' \<and> n_generated g' = get_trajectory_count globbed (storage cfg) (disk g')"
  using assms
proof (induction fuel arbitrary: g)
  case 0
  then show ?case by (simp split: if_splits)
next
  case (Suc fuel)
  show ?case
  proof (cases "n_generated g < pop")
    case False
    with Suc.prems show ?thesis by simp
  next
    case True
    show ?thesis
    proof (cases "generate_trajectory_set cfg system (calls g) (n_set g) T")
      case (Inl e)
      with True Suc.prems show ?thesis by simp
    next
      case (Inr traj_i)
      define g1 where "g1 = g\<lparr>disk := env (ticks g) (disk g),
          n_generated := get_trajectory_count globbed (storage cfg) (env (ticks g) (disk g)),
          calls := calls g + length traj_i, ticks := Suc (ticks g)\<rparr>"
      define g2 where "g2 = g1\<lparr>n_set := min (n_set g1) (pop - n_generated g1)\<rparr>"
      have c1: "n_generated g1 = get_trajectory_count globbed (storage cfg) (disk g1)" by (simp add: g1_def)
      show ?thesis
      proof (cases "n_generated g1 = pop")
        case met: True
        have "generate_loop globbed cfg system env (IntVal pop) T (Suc fuel) g = Finished g1"
          using True Inr met by (simp add: g1_def Let_def pop_int)
        with Suc.prems met c1 show ?thesis by simp
      next
        case unmet: False
        obtain r g3 where sb: "save_batch env traj_i [0..n_set g2 - 1] g2 = (r, g3)"
          by (cases "save_batch env traj_i [0..n_set g2 - 1] g2")
        have step: "generate_loop globbed cfg system env (IntVal pop) T (Suc fuel) g =
            (case r of Some e \<Rightarrow> Raised e g3
                     | None \<Rightarrow> generate_loop globbed cfg system env (IntVal pop) T fuel g3)"
          using True Inr unmet sb by (simp add: g1_def g2_def Let_def pop_int)
        have inv: "pop \<le> n_generated g3 \<longrightarrow> n_generated g3 = get_trajectory_count globbed (storage cfg) (disk g3)"
        proof (cases "pop < n_generated g1")
          case True
          then have "n_set g2 - 1 < 0" by (simp add: g2_def)
          then have "[0..n_set g2 - 1] = []" by simp
          with sb have "g3 = g2" by simp
          then show ?thesis using c1 by (simp add: g2_def)
        next
          case False
          with unmet have "n_generated g2 < pop" by (simp add: g2_def)
          with save_batch_log [OF sb] show ?thesis by simp
        qed
        show ?thesis
        proof (cases r)
          case None
          with step Suc.prems have "generate_loop globbed cfg system env (IntVal pop) T fuel g3 = Finished g'"
            by simp
          from Suc.IH [OF this inv] show ?thesis .
        next
          case (Some e)
          with step Suc.prems show ?thesis by simp
        qed
      qed
    qed
  qed
qed

lemma generate_loop_terminates:
  assumes env: "appends_only env" and cfg: "generation_config cfg \<noteq> None" and T: "1 \<le> T"
    and plain: "\<not> has_magic (data_dir (storage cfg))"
  shows "dense (disk g) \<Longrightarrow> 1 \<le> n_set g \<Longrightarrow>
     max 0 (pop - int (length (disk g))) < int fuel \<Longrightarrow>
     \<exists>g'. generate_loop globbed cfg system env (IntVal pop) T fuel g = Finished g'"
proof (induction fuel arbitrary: g)
  case 0
  then show ?case by simp
next
  case (Suc fuel)
  show ?case
  proof (cases "n_generated g < pop")
    case False
    then show ?thesis by simp
  next
    case True
    define traj_i where "traj_i = map (\<lambda>j. system (calls g + j) T) [0..<nat (n_set g)]"
    have batch: "generate_trajectory_set cfg system (calls g) (n_set g) T = Inr traj_i"
      using cfg T Suc.prems(2) by (simp add: generate_trajectory_set_def traj_i_def)
    have len: "int (length traj_i) = n_set g" using Suc.prems(2) by (simp add: traj_i_def)
    let ?d1 = "env (ticks g) (disk g)"
    from env Suc.prems(1) have d1: "dense ?d1" "length (disk g) \<le> length ?d1"
      by (simp_all add: appends_only_def)
    have cnt: "get_trajectory_count globbed (storage cfg) ?d1 = int (length ?d1)"
      using d1(1) plain by (rule dense_count)
    show ?thesis
    proof (cases "pop \<le> get_trajectory_count globbed (storage cfg) ?d1")
      case met: True
      from generate_loop_target_met [where env = env and g = g, OF True batch met]
      show ?thesis by blast
    next
      case unmet: False
      define g1 where "g1 = g\<lparr>disk := ?d1, n_generated := get_trajectory_count globbed (storage cfg) ?d1,
          calls := calls g + length traj_i, ticks := Suc (ticks g)\<rparr>"
      define g2 where "g2 = g1\<lparr>n_set := min (n_set g1) (pop - n_generated g1)\<rparr>"
      have ns: "1 \<le> n_set g2" "n_set g2 \<le> n_set g"
        using unmet Suc.prems(2) by (simp_all add: g2_def g1_def)
      have "\<exists>g3. save_batch env traj_i [0..n_set g2 - 1] g2 = (None, g3) \<and> dense (disk g3) \<and>
         length (disk g2) \<le> length (disk g3) \<and>
         (0 \<le> n_set g2 - 1 \<longrightarrow> n_generated g2 + (n_set g2 - 1) + 1 \<le> int (length (disk g3))) \<and>
         n_generated g3 = n_generated g2 \<and> n_set g3 = n_set g2"
      proof (rule save_batch_dense [OF env])
        show "dense (disk g2)" using d1(1) by (simp add: g2_def g1_def)
        show "0 \<le> n_generated g2" by (simp add: g2_def g1_def cnt)
        show "(0 :: int) \<le> 0" by simp
        show "n_generated g2 + 0 \<le> int (length (disk g2))" by (simp add: g2_def g1_def cnt)
        show "n_set g2 - 1 < int (length traj_i)" using ns(2) len by simp
      qed
      then obtain g3 where g3: "save_batch env traj_i [0..n_set g2 - 1] g2 = (None, g3)"
        "dense (disk g3)" "n_generated g2 + n_set g2 \<le> int (length (disk g3))"
        "n_set g3 = n_set g2"
        using ns(1) by auto
      have step: "generate_loop globbed cfg system env (IntVal pop) T (Suc fuel) g
          = generate_loop globbed cfg system env (IntVal pop) T fuel g3"
        using True batch unmet g3(1) by (simp add: g1_def g2_def Let_def pop_int)
      have ng2: "n_generated g2 = int (length ?d1)" by (simp add: g2_def g1_def cnt)
      have grown: "int (length (disk g)) + 1 \<le> int (length (disk g3))"
        using g3(3) ns(1) d1(2) unfolding ng2 by linarith
      have short: "int (length (disk g)) < pop" using unmet d1(2) cnt by simp
      have fuel: "max 0 (pop - int (length (disk g3))) < int fuel"
        using Suc.prems(3) grown short by simp
      have "1 \<le> n_set g3" using g3(4) ns(1) by simp
      from Suc.IH [OF g3(2) this fuel] step show ?thesis by simp
    qed
  qed
qed

text \<open>
  The loop for an integer \<^verbatim>\<open>n_pop\<close>. Let other writers change the directory in any way
  before each access of the loop to the disk. Then, however long the loop has run (for
  every amount of fuel): every index the loop has saved a file at lies in \<open>[0, n_pop)\<close>;
  if the loop has ended, the count it read last is the count of the directory it leaves
  and is at least \<open>n_pop\<close>; in every iteration the count is read again after the batch is
  simulated and before anything is saved, and when this count has reached \<open>n_pop\<close> the
  loop ends in this iteration, leaving the directory as the other writers left it and
  saving nothing; and when \<open>traj_len \<ge> 1\<close>, the path of the data directory holds no
  pattern character, the directory is dense and the other writers only append, the loop
  ends within \<open>n_pop + 1\<close> iterations.
\<close>

lemma generate_population_growth_int:
  fixes cfg :: DataConfig and system :: "nat \<Rightarrow> int \<Rightarrow> 'a list"
    and env :: "nat \<Rightarrow> 'a list directory \<Rightarrow> 'a list directory"
  assumes gc: "generation_config cfg = Some gc" and int: "n_pop gc = IntVal pop"
  shows "(\<forall>i \<in> set (written (state_of (generate globbed cfg system env fuel disk0))).
            0 \<le> i \<and> i < pop) \<and>
         (\<forall>g'. generate globbed cfg system env fuel disk0 = Finished g' \<longrightarrow>
            pop \<le> get_trajectory_count globbed (storage cfg) (disk g') \<and>
            n_generated g' = get_trajectory_count globbed (storage cfg) (disk g')) \<and>
         (\<forall>g traj_i k. n_generated g < pop \<and>
            generate_trajectory_set cfg system (calls g) (n_set g) (traj_len gc) = Inr traj_i \<and>
            pop \<le> get_trajectory_count globbed (storage cfg) (env (ticks g) (disk g)) \<longrightarrow>
            (\<exists>g'. generate_loop globbed cfg system env (IntVal pop) (traj_len gc) (Suc k) g
                    = Finished g' \<and>
                  written g' = written g \<and> disk g' = env (ticks g) (disk g))) \<and>
         (1 \<le> traj_len gc \<and> \<not> has_magic (data_dir (storage cfg)) \<and> dense disk0 \<and>
          appends_only env \<longrightarrow>
            (\<exists>g'. generate globbed cfg system env (Suc (nat pop)) disk0 = Finished g'))"
proof -
  define g0 :: "'a generation" where
    "g0 = \<lparr>disk = env 0 disk0,
           n_generated = get_trajectory_count globbed (storage cfg) (env 0 disk0), n_set = 30,
           calls = 0, ticks = 1, written = []\<rparr>"
  have gen: "generate globbed cfg system env f disk0
      = generate_loop globbed cfg system env (IntVal pop) (traj_len gc) f g0" for f
    by (simp add: generate_def gc int g0_def Let_def)
  have a: "\<forall>i \<in> set (written (state_of (generate globbed cfg system env fuel disk0))).
            0 \<le> i \<and> i < pop"
    unfolding gen by (rule generate_loop_written) (simp add: g0_def)
  have b: "\<forall>g'. generate globbed cfg system env fuel disk0 = Finished g' \<longrightarrow>
            pop \<le> get_trajectory_count globbed (storage cfg) (disk g') \<and>
            n_generated g' = get_trajectory_count globbed (storage cfg) (disk g')"
  proof (intro allI impI)
    fix g'
    assume "generate globbed cfg system env fuel disk0 = Finished g'"
    then have "generate_loop globbed cfg system env (IntVal pop) (traj_len gc) fuel g0
        = Finished g'"
      by (simp only: gen)
    from generate_loop_exit_count [OF this]
    show "pop \<le> get_trajectory_count globbed (storage cfg) (disk g') \<and>
            n_generated g' = get_trajectory_count globbed (storage cfg) (disk g')"
      by (simp add: g0_def)
  qed
  have c: "\<forall>g traj_i k. n_generated g < pop \<and>
            generate_trajectory_set cfg system (calls g) (n_set g) (traj_len gc) = Inr traj_i \<and>
            pop \<le> get_trajectory_count globbed (storage cfg) (env (ticks g) (disk g)) \<longrightarrow>
            (\<exists>g'. generate_loop globbed cfg system env (IntVal pop) (traj_len gc) (Suc k) g
                    = Finished g' \<and>
                  written g' = written g \<and> disk g' = env (ticks g) (disk g))"
  proof (intro allI impI, elim conjE)
    fix g :: "'a generation" and traj_i k
    assume "n_generated g < pop"
      "generate_trajectory_set cfg system (calls g) (n_set g) (traj_len gc) = Inr traj_i"
      "pop \<le> get_trajectory_count globbed (storage cfg) (env (ticks g) (disk g))"
    from generate_loop_target_met [where env = env and g = g and fuel = k, OF this]
    show "\<exists>g'. generate_loop globbed cfg system env (IntVal pop) (traj_len gc) (Suc k) g
                    = Finished g' \<and>
                  written g' = written g \<and> disk g' = env (ticks g) (disk g)"
      by blast
  qed
  have d: "1 \<le> traj_len gc \<and> \<not> has_magic (data_dir (storage cfg)) \<and> dense disk0 \<and>
          appends_only env \<longrightarrow>
            (\<exists>g'. generate globbed cfg system env (Suc (nat pop)) disk0 = Finished g')"
  proof (intro impI, elim conjE)
    assume T: "1 \<le> traj_len gc" and plain: "\<not> has_magic (data_dir (storage cfg))"
      and dn: "dense disk0" and env: "appends_only env"
    have cfg: "generation_config cfg \<noteq> None" by (simp add: gc)
    have d0: "dense (disk g0)" using env dn by (simp add: g0_def appends_only_def)
    have n0: "1 \<le> n_set g0" by (simp add: g0_def)
    have f: "max 0 (pop - int (length (disk g0))) < int (Suc (nat pop))" by simp
    from generate_loop_terminates [OF env cfg T plain d0 n0 f]
    show "\<exists>g'. generate globbed cfg system env (Suc (nat pop)) disk0 = Finished g'"
      by (simp only: gen)
  qed
  show ?thesis by (intro conjI a b c d)
qed

text \<open>
  \<^bold>\<open>C5\<close>. The field \<^verbatim>\<open>n_pop\<close> is declared \<^verbatim>\<open>float\<close>. Take \<^verbatim>\<open>n_pop = 40.0\<close>, an
  empty data directory and no other writer. The first iteration reads the count 0;
  \<^verbatim>\<open>min(30, 40.0 - 0)\<close> is the integer 30 and the files 0 to 29 are saved. The second
  iteration reads the count 30; \<^verbatim>\<open>40.0 - 30\<close> is the float \<^verbatim>\<open>10.0\<close>, which is below
  30, so \<^verbatim>\<open>n_set\<close> becomes a float and \<^verbatim>\<open>range(n_set)\<close> raises \<^verbatim>\<open>TypeError\<close>. The
  loop is left with 30 files on disk, while the count has not reached \<^verbatim>\<open>n_pop\<close>. With
  the integer 40 in the same field the files 0 to 39 are saved and the loop ends on
  reading the count 40 (in general: \<open>generate_population_growth_int\<close>).
\<close>

theorem generate_raises_for_float_population:
  "(case generate globbed
          (DataConfig_default\<lparr>storage := ''/results/run'',
             generation_config := Some \<lparr>n_pop = FloatVal 40, traj_len = 2\<rparr>\<rparr>)
          (\<lambda>k T. [k, k]) (\<lambda>t d. d) 5 [] of
      Raised e g \<Rightarrow>
        e = TypeError \<and> written g = [0..29] \<and> n_generated g = 30 \<and>
        get_trajectory_count globbed ''/results/run'' (disk g) = 30
    | _ \<Rightarrow> False) \<and>
   (case generate globbed
          (DataConfig_default\<lparr>storage := ''/results/run'',
             generation_config := Some \<lparr>n_pop = IntVal 40, traj_len = 2\<rparr>\<rparr>)
          (\<lambda>k T. [k, k]) (\<lambda>t d. d) 5 [] of
      Finished g \<Rightarrow>
        written g = [0..39] \<and> n_generated g = 40 \<and>
        get_trajectory_count globbed ''/results/run'' (disk g) = 40
    | _ \<Rightarrow> False)"
  by code_simp

end
